theory Spec2Isabelle
  imports Main "HOL-Library.Word"
begin

unbundle bit_operations_syntax

section \<open>Data model of the PieWrappedERC20 ledger token\<close>

text \<open>
  The contract \<^verbatim>\<open>PieWrappedERC20\<close> is a wrapped ERC-20 token with EIP-3009
  authorizations. Solidity value types are machine words: an \<^verbatim>\<open>address\<close> has 160 bits,
  \<^verbatim>\<open>uint256\<close> and \<^verbatim>\<open>bytes32\<close> have 256 bits, \<^verbatim>\<open>uint8\<close> has 8 bits and
  \<^verbatim>\<open>bytes\<close> is a list of bytes. A revert is a value \<open>Inl e\<close> of the result type; a call
  that returns normally yields \<open>Inr\<close> of the new state.
\<close>

type_synonym address = "160 word"
type_synonym uint256 = "256 word"
type_synonym bytes32 = "256 word"
type_synonym uint8 = "8 word"
type_synonym bytes = "8 word list"

text \<open>
  The custom errors the contract declares, followed by the reverts of the inherited
  library code that its functions can run into (reentrancy guard, ERC-20 transfer checks,
  ECDSA recovery, checked arithmetic), and by the further reverts of the earlier
  \<^verbatim>\<open>pieUSD\<close> contract (two custom errors and \<^verbatim>\<open>require\<close> with a message).
\<close>

datatype error =
    AmountMustBeGreaterThanZero
  | InsufficientBalance
  | UnauthorizedReceiver
  | TransferAmountMismatch
  | InvalidUnderlyingAddress
  | InvalidUnderlyingSymbol
  | AuthorizationExpired
  | AuthorizationNotYetValid
  | AuthorizationAlreadyUsed
  | InvalidAuthorization
  | ReentrancyGuardReentrantCall
  | ERC20InsufficientBalance
  | ERC20InsufficientAllowance
  | ERC20InvalidSender
  | ERC20InvalidReceiver
  | ECDSAInvalidSignature
  | ECDSAInvalidSignatureLength
  | ECDSAInvalidSignatureS
  | PanicArithmetic
  | DepositFailed
  | RedeemFailed
  | Error string

datatype event =
    Deposit address uint256
  | Redeem address uint256
  | AuthorizationUsed address address uint256 bytes32
  | AuthorizationCanceled address bytes32
  | Transfer address address uint256

datatype guard = NOT_ENTERED | ENTERED

text \<open>The storage of an ERC-20 token: balances, allowances and the total supply.\<close>

record erc20 =
  balances :: "address \<Rightarrow> uint256"
  allowances :: "address \<Rightarrow> address \<Rightarrow> uint256"
  totalSupply :: uint256

text \<open>Calls that the contract makes to the underlying token contract.\<close>

datatype extcall =
    BalanceOfCall address
  | TransferFromCall address address uint256
  | TransferCall address uint256

text \<open>
  The state a call runs in: the contract's own storage (\<open>authorizationStates\<close> is the
  mapping \<^verbatim>\<open>_authorizationStates\<close>, \<open>wrapped\<close> the inherited ERC-20 storage,
  \<open>status\<close> the flag of the reentrancy guard), the storage of the token contract that
  \<^verbatim>\<open>underlying\<close> points to, the events this contract has emitted so far (the
  underlying token's own log is not kept), and the trace of external calls, each with the
  guard flag and the wrapped-token storage the callee could observe at the moment of the
  call.
\<close>

record chain =
  authorizationStates :: "address \<Rightarrow> bytes32 \<Rightarrow> bool"
  wrapped :: erc20
  status :: guard
  underlying :: erc20
  events :: "event list"
  calls :: "(extcall \<times> guard \<times> erc20) list"

text \<open>The transaction context: \<^verbatim>\<open>msg.sender\<close>, \<^verbatim>\<open>address(this)\<close>, \<^verbatim>\<open>block.timestamp\<close>.\<close>

record env =
  msg_sender :: address
  address_this :: address
  block_timestamp :: uint256

text \<open>
  The cryptographic primitives are parameters of the model: the hash function, the
  \<^verbatim>\<open>ecrecover\<close> precompile, and the EIP-712 domain separator of the deployed proxy
  (a hash of the contract name, version, chain id and address).
\<close>

record crypto =
  keccak256 :: "bytes \<Rightarrow> bytes32"
  ecrecover :: "bytes32 \<Rightarrow> uint8 \<Rightarrow> bytes32 \<Rightarrow> bytes32 \<Rightarrow> address"
  domainSeparatorV4 :: bytes32

type_synonym 'a result = "error + 'a"

definition then_do :: "'a result \<Rightarrow> ('a \<Rightarrow> 'b result) \<Rightarrow> 'b result" where
  "then_do m f = (case m of Inl e \<Rightarrow> Inl e | Inr x \<Rightarrow> f x)"

definition emit :: "event \<Rightarrow> chain \<Rightarrow> chain" where
  "emit ev st = st\<lparr>events := events st @ [ev]\<rparr>"

section \<open>Inherited ERC-20 operations\<close>

text \<open>
  Modelled from the spec: \<^verbatim>\<open>_update\<close>, \<^verbatim>\<open>_transfer\<close>, \<^verbatim>\<open>_mint\<close> and \<^verbatim>\<open>_burn\<close>
  are inherited from the imported ERC20Upgradeable base contract, which is not part of the
  repository's sources. They move value from one account to another, credit a balance 1:1
  and burn a balance 1:1. The model follows the base contract: the total supply is
  increased with an overflow check, a debit needs a sufficient balance, and credits and
  the supply decrease are unchecked.
\<close>

definition erc20_update :: "address \<Rightarrow> address \<Rightarrow> uint256 \<Rightarrow> erc20 \<Rightarrow> erc20 result" where
  "erc20_update from to val t =
     then_do
       (if from = 0 then
          (if unat (totalSupply t) + unat val < 2 ^ 256
           then Inr (t\<lparr>totalSupply := totalSupply t + val\<rparr>)
           else Inl PanicArithmetic)
        else if balances t from < val then Inl ERC20InsufficientBalance
        else Inr (t\<lparr>balances := (balances t)(from := balances t from - val)\<rparr>))
       (\<lambda>t1. Inr (if to = 0 then t1\<lparr>totalSupply := totalSupply t1 - val\<rparr>
                  else t1\<lparr>balances := (balances t1)(to := balances t1 to + val)\<rparr>))"

definition erc20_transfer :: "address \<Rightarrow> address \<Rightarrow> uint256 \<Rightarrow> erc20 \<Rightarrow> erc20 result" where
  "erc20_transfer from to val t =
     (if from = 0 then Inl ERC20InvalidSender
      else if to = 0 then Inl ERC20InvalidReceiver
      else erc20_update from to val t)"

definition erc20_mint :: "address \<Rightarrow> uint256 \<Rightarrow> erc20 \<Rightarrow> erc20 result" where
  "erc20_mint account val t =
     (if account = 0 then Inl ERC20InvalidReceiver else erc20_update 0 account val t)"

definition erc20_burn :: "address \<Rightarrow> uint256 \<Rightarrow> erc20 \<Rightarrow> erc20 result" where
  "erc20_burn account val t =
     (if account = 0 then Inl ERC20InvalidSender else erc20_update account 0 val t)"

definition erc20_spendAllowance :: "address \<Rightarrow> address \<Rightarrow> uint256 \<Rightarrow> erc20 \<Rightarrow> erc20 result" where
  "erc20_spendAllowance owner spender val t =
     (let currentAllowance = allowances t owner spender in
      if currentAllowance < - 1 then
        (if currentAllowance < val then Inl ERC20InsufficientAllowance
         else Inr (t\<lparr>allowances := (allowances t)
                        (owner := (allowances t owner)(spender := currentAllowance - val))\<rparr>))
      else Inr t)"

definition erc20_transferFrom ::
  "address \<Rightarrow> address \<Rightarrow> address \<Rightarrow> uint256 \<Rightarrow> erc20 \<Rightarrow> erc20 result" where
  "erc20_transferFrom spender from to val t =
     then_do (erc20_spendAllowance from spender val t) (erc20_transfer from to val)"

text \<open>The wrapped token's own \<^verbatim>\<open>balanceOf\<close>, \<^verbatim>\<open>_transfer\<close>, \<^verbatim>\<open>_mint\<close>, \<^verbatim>\<open>_burn\<close>,
  each emitting the \<^verbatim>\<open>Transfer\<close> event of the base contract.\<close>

definition balanceOf :: "chain \<Rightarrow> address \<Rightarrow> uint256" where
  "balanceOf st a = balances (wrapped st) a"

definition transfer_internal :: "address \<Rightarrow> address \<Rightarrow> uint256 \<Rightarrow> chain \<Rightarrow> chain result" where
  "transfer_internal from to val st =
     then_do (erc20_transfer from to val (wrapped st))
       (\<lambda>t. Inr (emit (Transfer from to val) (st\<lparr>wrapped := t\<rparr>)))"

definition mint_internal :: "address \<Rightarrow> uint256 \<Rightarrow> chain \<Rightarrow> chain result" where
  "mint_internal account val st =
     then_do (erc20_mint account val (wrapped st))
       (\<lambda>t. Inr (emit (Transfer 0 account val) (st\<lparr>wrapped := t\<rparr>)))"

definition burn_internal :: "address \<Rightarrow> uint256 \<Rightarrow> chain \<Rightarrow> chain result" where
  "burn_internal account val st =
     then_do (erc20_burn account val (wrapped st))
       (\<lambda>t. Inr (emit (Transfer account 0 val) (st\<lparr>wrapped := t\<rparr>)))"

section \<open>Signing digests and signature recovery\<close>

text \<open>\<^verbatim>\<open>abi.encode\<close> of static values is the concatenation of their 32-byte big-endian
  words; a string literal is hashed as its bytes.\<close>

definition bytes32_bytes :: "bytes32 \<Rightarrow> bytes" where
  "bytes32_bytes w = map (\<lambda>i. ucast (drop_bit (8 * (31 - i)) w)) [0..<32]"

definition abi_encode :: "bytes32 list \<Rightarrow> bytes" where
  "abi_encode ws = concat (map bytes32_bytes ws)"

definition string_bytes :: "string \<Rightarrow> bytes" where
  "string_bytes str = map (\<lambda>c. word_of_nat (of_char c)) str"

definition TRANSFER_WITH_AUTHORIZATION_TYPEHASH :: "crypto \<Rightarrow> bytes32" where
  "TRANSFER_WITH_AUTHORIZATION_TYPEHASH K = keccak256 K (string_bytes
     ''TransferWithAuthorization(address from,address to,uint256 value,uint256 validAfter,uint256 validBefore,bytes32 nonce)'')"

definition RECEIVE_WITH_AUTHORIZATION_TYPEHASH :: "crypto \<Rightarrow> bytes32" where
  "RECEIVE_WITH_AUTHORIZATION_TYPEHASH K = keccak256 K (string_bytes
     ''ReceiveWithAuthorization(address from,address to,uint256 value,uint256 validAfter,uint256 validBefore,bytes32 nonce)'')"

definition CANCEL_AUTHORIZATION_TYPEHASH :: "crypto \<Rightarrow> bytes32" where
  "CANCEL_AUTHORIZATION_TYPEHASH K = keccak256 K (string_bytes
     ''CancelAuthorization(address authorizer,bytes32 nonce)'')"

text \<open>
  Modelled from the spec: \<^verbatim>\<open>_hashTypedDataV4\<close> belongs to the imported
  EIP712Upgradeable base contract, which is not part of the repository's sources. The
  canonical signing digest is the hash of the struct hash, domain-separated by contract
  name, version and target network identifier: the bytes 0x19 0x01, the domain separator
  and the struct hash.
\<close>

definition hashTypedDataV4 :: "crypto \<Rightarrow> bytes32 \<Rightarrow> bytes32" where
  "hashTypedDataV4 K structHash =
     keccak256 K ([0x19, 0x01] @ bytes32_bytes (domainSeparatorV4 K) @ bytes32_bytes structHash)"

text \<open>
  Modelled from the spec: the two \<^verbatim>\<open>recover\<close> functions belong to the imported ECDSA
  library, which is not part of the repository's sources. The structured encoding
  (v, r, s) is the canonical signature; the packed encoding is a parsing adapter at the
  boundary: a 65-byte signature holds r in bytes 0..31, s in bytes 32..63 and v in byte 64,
  any other length is rejected. Recovery rejects an s in the upper half of the curve order
  and a recovered zero address.
\<close>

definition secp256k1_half_order :: uint256 where
  "secp256k1_half_order = 0x7FFFFFFFFFFFFFFFFFFFFFFFFFFFFFFF5D576E7357A4501DDFE92F46681B20A0"

definition recover_vrs :: "crypto \<Rightarrow> bytes32 \<Rightarrow> uint8 \<Rightarrow> bytes32 \<Rightarrow> bytes32 \<Rightarrow> address result" where
  "recover_vrs K hash v r s =
     (if secp256k1_half_order < s then Inl ECDSAInvalidSignatureS
      else let signer = ecrecover K hash v r s in
        if signer = 0 then Inl ECDSAInvalidSignature else Inr signer)"

definition sig_r :: "bytes \<Rightarrow> bytes32" where
  "sig_r signature = word_rcat (take 32 signature)"

definition sig_s :: "bytes \<Rightarrow> bytes32" where
  "sig_s signature = word_rcat (take 32 (drop 32 signature))"

definition sig_v :: "bytes \<Rightarrow> uint8" where
  "sig_v signature = signature ! 64"

definition recover_sig :: "crypto \<Rightarrow> bytes32 \<Rightarrow> bytes \<Rightarrow> address result" where
  "recover_sig K hash signature =
     (if length signature = 65
      then recover_vrs K hash (sig_v signature) (sig_r signature) (sig_s signature)
      else Inl ECDSAInvalidSignatureLength)"

section \<open>The underlying token and the reentrancy guard\<close>

text \<open>
  Modelled from the spec: the token behind \<^verbatim>\<open>underlying\<close> is an external contract and
  SafeERC20 an imported library; neither is part of the repository's sources. The external
  funds are held in a standard ERC-20 ledger whose \<^verbatim>\<open>transfer\<close> and
  \<^verbatim>\<open>transferFrom\<close> move exactly the requested amount or revert, in which case the
  safe wrappers revert too. Each external call is appended to the call trace together
  with the guard flag and the wrapped-token storage at that moment.
\<close>

definition record_call :: "extcall \<Rightarrow> chain \<Rightarrow> chain" where
  "record_call c st = st\<lparr>calls := calls st @ [(c, status st, wrapped st)]\<rparr>"

definition underlying_balanceOf :: "address \<Rightarrow> chain \<Rightarrow> uint256 \<times> chain" where
  "underlying_balanceOf a st = (balances (underlying st) a, record_call (BalanceOfCall a) st)"

definition safeTransferFrom :: "env \<Rightarrow> address \<Rightarrow> address \<Rightarrow> uint256 \<Rightarrow> chain \<Rightarrow> chain result" where
  "safeTransferFrom e from to val st =
     then_do (erc20_transferFrom (address_this e) from to val (underlying st))
       (\<lambda>u. Inr ((record_call (TransferFromCall from to val) st)\<lparr>underlying := u\<rparr>))"

definition safeTransfer :: "env \<Rightarrow> address \<Rightarrow> uint256 \<Rightarrow> chain \<Rightarrow> chain result" where
  "safeTransfer e to val st =
     then_do (erc20_transfer (address_this e) to val (underlying st))
       (\<lambda>u. Inr ((record_call (TransferCall to val) st)\<lparr>underlying := u\<rparr>))"

text \<open>
  Modelled from the spec: the modifier \<^verbatim>\<open>nonReentrant\<close> belongs to the imported
  ReentrancyGuardUpgradeable base contract, which is not part of the repository's sources.
  It makes deposit and redeem reentrancy-safe: a call that finds the flag set reverts,
  otherwise the flag is set for the duration of the body and cleared afterwards.
\<close>

definition nonReentrant :: "chain \<Rightarrow> (chain \<Rightarrow> chain result) \<Rightarrow> chain result" where
  "nonReentrant st body =
     (if status st = ENTERED then Inl ReentrancyGuardReentrantCall
      else then_do (body (st\<lparr>status := ENTERED\<rparr>)) (\<lambda>st'. Inr (st'\<lparr>status := NOT_ENTERED\<rparr>)))"

section \<open>The functions of PieWrappedERC20\<close>

definition deposit :: "env \<Rightarrow> uint256 \<Rightarrow> chain \<Rightarrow> chain result" where
  "deposit e amount st0 = nonReentrant st0 (\<lambda>st.
     if amount = 0 then Inl AmountMustBeGreaterThanZero
     else
       let (balanceBefore, st1) = underlying_balanceOf (address_this e) st in
       then_do (safeTransferFrom e (msg_sender e) (address_this e) amount st1) (\<lambda>st2.
         let (balanceAfter, st3) = underlying_balanceOf (address_this e) st2 in
         if balanceAfter < balanceBefore then Inl PanicArithmetic
         else
           let received = balanceAfter - balanceBefore in
           if received \<noteq> amount then Inl TransferAmountMismatch
           else then_do (mint_internal (msg_sender e) received st3) (\<lambda>st4.
             Inr (emit (Deposit (msg_sender e) received) st4))))"

definition redeem :: "env \<Rightarrow> uint256 \<Rightarrow> chain \<Rightarrow> chain result" where
  "redeem e amount st0 = nonReentrant st0 (\<lambda>st.
     if amount = 0 then Inl AmountMustBeGreaterThanZero
     else if balanceOf st (msg_sender e) < amount then Inl InsufficientBalance
     else
       then_do (burn_internal (msg_sender e) amount st) (\<lambda>st1.
       then_do (safeTransfer e (msg_sender e) amount st1) (\<lambda>st2.
         Inr (emit (Redeem (msg_sender e) amount) st2))))"

definition requireUnusedAuthorization :: "address \<Rightarrow> bytes32 \<Rightarrow> chain \<Rightarrow> unit result" where
  "requireUnusedAuthorization authorizer nonce st =
     (if authorizationStates st authorizer nonce then Inl AuthorizationAlreadyUsed else Inr ())"

definition requireValidAuthorization ::
  "env \<Rightarrow> address \<Rightarrow> bytes32 \<Rightarrow> uint256 \<Rightarrow> uint256 \<Rightarrow> chain \<Rightarrow> unit result" where
  "requireValidAuthorization e authorizer nonce validAfter validBefore st =
     (if block_timestamp e < validAfter then Inl AuthorizationNotYetValid
      else if validBefore < block_timestamp e then Inl AuthorizationExpired
      else requireUnusedAuthorization authorizer nonce st)"

definition executeAuthorization :: "address \<Rightarrow> address \<Rightarrow> uint256 \<Rightarrow> bytes32 \<Rightarrow> chain \<Rightarrow> chain" where
  "executeAuthorization authorizer to val nonce st =
     emit (AuthorizationUsed authorizer to val nonce)
       (st\<lparr>authorizationStates := (authorizationStates st)
              (authorizer := (authorizationStates st authorizer)(nonce := True))\<rparr>)"

definition transfer_digest ::
  "crypto \<Rightarrow> address \<Rightarrow> address \<Rightarrow> uint256 \<Rightarrow> uint256 \<Rightarrow> uint256 \<Rightarrow> bytes32 \<Rightarrow> bytes32" where
  "transfer_digest K from to val validAfter validBefore nonce =
     (let structHash = keccak256 K (abi_encode
            [TRANSFER_WITH_AUTHORIZATION_TYPEHASH K, ucast from, ucast to, val,
             validAfter, validBefore, nonce])
      in hashTypedDataV4 K structHash)"

definition receive_digest ::
  "crypto \<Rightarrow> address \<Rightarrow> address \<Rightarrow> uint256 \<Rightarrow> uint256 \<Rightarrow> uint256 \<Rightarrow> bytes32 \<Rightarrow> bytes32" where
  "receive_digest K from to val validAfter validBefore nonce =
     (let structHash = keccak256 K (abi_encode
            [RECEIVE_WITH_AUTHORIZATION_TYPEHASH K, ucast from, ucast to, val,
             validAfter, validBefore, nonce])
      in hashTypedDataV4 K structHash)"

definition cancel_digest :: "crypto \<Rightarrow> address \<Rightarrow> bytes32 \<Rightarrow> bytes32" where
  "cancel_digest K authorizer nonce =
     (let structHash = keccak256 K (abi_encode
            [CANCEL_AUTHORIZATION_TYPEHASH K, ucast authorizer, nonce])
      in hashTypedDataV4 K structHash)"

definition transferWithAuthorization ::
  "crypto \<Rightarrow> env \<Rightarrow> address \<Rightarrow> address \<Rightarrow> uint256 \<Rightarrow> uint256 \<Rightarrow> uint256 \<Rightarrow> bytes32 \<Rightarrow>
   uint8 \<Rightarrow> bytes32 \<Rightarrow> bytes32 \<Rightarrow> chain \<Rightarrow> chain result" where
  "transferWithAuthorization K e from to val validAfter validBefore nonce v r s st =
     then_do (requireValidAuthorization e from nonce validAfter validBefore st) (\<lambda>_.
     then_do (recover_vrs K (transfer_digest K from to val validAfter validBefore nonce) v r s)
       (\<lambda>signer.
         if signer \<noteq> from then Inl InvalidAuthorization
         else transfer_internal from to val (executeAuthorization from to val nonce st)))"

definition transferWithAuthorization_sig ::
  "crypto \<Rightarrow> env \<Rightarrow> address \<Rightarrow> address \<Rightarrow> uint256 \<Rightarrow> uint256 \<Rightarrow> uint256 \<Rightarrow> bytes32 \<Rightarrow>
   bytes \<Rightarrow> chain \<Rightarrow> chain result" where
  "transferWithAuthorization_sig K e from to val validAfter validBefore nonce signature st =
     then_do (requireValidAuthorization e from nonce validAfter validBefore st) (\<lambda>_.
     then_do (recover_sig K (transfer_digest K from to val validAfter validBefore nonce) signature)
       (\<lambda>signer.
         if signer \<noteq> from then Inl InvalidAuthorization
         else transfer_internal from to val (executeAuthorization from to val nonce st)))"

definition receiveWithAuthorization ::
  "crypto \<Rightarrow> env \<Rightarrow> address \<Rightarrow> address \<Rightarrow> uint256 \<Rightarrow> uint256 \<Rightarrow> uint256 \<Rightarrow> bytes32 \<Rightarrow>
   uint8 \<Rightarrow> bytes32 \<Rightarrow> bytes32 \<Rightarrow> chain \<Rightarrow> chain result" where
  "receiveWithAuthorization K e from to val validAfter validBefore nonce v r s st =
     (if to \<noteq> msg_sender e then Inl UnauthorizedReceiver
      else
        then_do (requireValidAuthorization e from nonce validAfter validBefore st) (\<lambda>_.
        then_do (recover_vrs K (receive_digest K from to val validAfter validBefore nonce) v r s)
          (\<lambda>signer.
            if signer \<noteq> from then Inl InvalidAuthorization
            else transfer_internal from to val (executeAuthorization from to val nonce st))))"

definition receiveWithAuthorization_sig ::
  "crypto \<Rightarrow> env \<Rightarrow> address \<Rightarrow> address \<Rightarrow> uint256 \<Rightarrow> uint256 \<Rightarrow> uint256 \<Rightarrow> bytes32 \<Rightarrow>
   bytes \<Rightarrow> chain \<Rightarrow> chain result" where
  "receiveWithAuthorization_sig K e from to val validAfter validBefore nonce signature st =
     (if to \<noteq> msg_sender e then Inl UnauthorizedReceiver
      else
        then_do (requireValidAuthorization e from nonce validAfter validBefore st) (\<lambda>_.
        then_do (recover_sig K (receive_digest K from to val validAfter validBefore nonce) signature)
          (\<lambda>signer.
            if signer \<noteq> from then Inl InvalidAuthorization
            else transfer_internal from to val (executeAuthorization from to val nonce st))))"

definition cancelAuthorization ::
  "crypto \<Rightarrow> address \<Rightarrow> bytes32 \<Rightarrow> uint8 \<Rightarrow> bytes32 \<Rightarrow> bytes32 \<Rightarrow> chain \<Rightarrow> chain result" where
  "cancelAuthorization K authorizer nonce v r s st =
     then_do (requireUnusedAuthorization authorizer nonce st) (\<lambda>_.
     then_do (recover_vrs K (cancel_digest K authorizer nonce) v r s) (\<lambda>signer.
       if signer \<noteq> authorizer then Inl InvalidAuthorization
       else Inr (emit (AuthorizationCanceled authorizer nonce)
              (st\<lparr>authorizationStates := (authorizationStates st)
                     (authorizer := (authorizationStates st authorizer)(nonce := True))\<rparr>))))"

definition authorizationState :: "chain \<Rightarrow> address \<Rightarrow> bytes32 \<Rightarrow> bool" where
  "authorizationState st authorizer nonce = authorizationStates st authorizer nonce"

definition getReserves :: "env \<Rightarrow> chain \<Rightarrow> uint256" where
  "getReserves e st = balances (underlying st) (address_this e)"

text \<open>
  A transaction is one external call to one of the state-changing functions the contract
  defines. A call that reverts leaves the state as it was before the call: every write
  made before the revert is undone.
\<close>

datatype call =
    CallDeposit uint256
  | CallRedeem uint256
  | CallTransferWithAuthorization address address uint256 uint256 uint256 bytes32 uint8 bytes32 bytes32
  | CallTransferWithAuthorizationSig address address uint256 uint256 uint256 bytes32 bytes
  | CallReceiveWithAuthorization address address uint256 uint256 uint256 bytes32 uint8 bytes32 bytes32
  | CallReceiveWithAuthorizationSig address address uint256 uint256 uint256 bytes32 bytes
  | CallCancelAuthorization address bytes32 uint8 bytes32 bytes32

fun dispatch :: "crypto \<Rightarrow> env \<Rightarrow> call \<Rightarrow> chain \<Rightarrow> chain result" where
  "dispatch K e (CallDeposit amount) st = deposit e amount st"
| "dispatch K e (CallRedeem amount) st = redeem e amount st"
| "dispatch K e (CallTransferWithAuthorization from to val va vb nonce v r s) st =
     transferWithAuthorization K e from to val va vb nonce v r s st"
| "dispatch K e (CallTransferWithAuthorizationSig from to val va vb nonce signature) st =
     transferWithAuthorization_sig K e from to val va vb nonce signature st"
| "dispatch K e (CallReceiveWithAuthorization from to val va vb nonce v r s) st =
     receiveWithAuthorization K e from to val va vb nonce v r s st"
| "dispatch K e (CallReceiveWithAuthorizationSig from to val va vb nonce signature) st =
     receiveWithAuthorization_sig K e from to val va vb nonce signature st"
| "dispatch K e (CallCancelAuthorization authorizer nonce v r s) st =
     cancelAuthorization K authorizer nonce v r s st"

definition transact :: "crypto \<Rightarrow> env \<times> call \<Rightarrow> chain \<Rightarrow> chain" where
  "transact K tx st = (case dispatch K (fst tx) (snd tx) st of Inl e \<Rightarrow> st | Inr st' \<Rightarrow> st')"

fun transact_all :: "crypto \<Rightarrow> (env \<times> call) list \<Rightarrow> chain \<Rightarrow> chain" where
  "transact_all K [] st = st"
| "transact_all K (tx # txs) st = transact_all K txs (transact K tx st)"

section \<open>Deposit and redeem in the earlier pieUSD contract\<close>

text \<open>
  The repository also holds \<^verbatim>\<open>pieUSD\<close>, the earlier, non-upgradeable form of the
  token. Its \<^verbatim>\<open>_requireValidAuthorization\<close>, \<^verbatim>\<open>_requireUnusedAuthorization\<close>,
  \<^verbatim>\<open>cancelAuthorization\<close> and \<^verbatim>\<open>authorizationState\<close> read as the ones above, and its
  two \<^verbatim>\<open>transferWithAuthorization\<close> overloads differ from the ones above only in the
  fields of the logged event; it has no \<^verbatim>\<open>receiveWithAuthorization\<close>. Its deposit and
  redeem have no reentrancy guard, call the token's \<^verbatim>\<open>transferFrom\<close> and
  \<^verbatim>\<open>transfer\<close> directly and test the returned flag, which a standard ERC-20 ledger
  sets whenever it does not revert.
\<close>

definition usdt_transferFrom ::
  "env \<Rightarrow> address \<Rightarrow> address \<Rightarrow> uint256 \<Rightarrow> chain \<Rightarrow> (bool \<times> chain) result" where
  "usdt_transferFrom e from to val st =
     then_do (erc20_transferFrom (address_this e) from to val (underlying st))
       (\<lambda>u. Inr (True, (record_call (TransferFromCall from to val) st)\<lparr>underlying := u\<rparr>))"

definition usdt_transfer :: "env \<Rightarrow> address \<Rightarrow> uint256 \<Rightarrow> chain \<Rightarrow> (bool \<times> chain) result" where
  "usdt_transfer e to val st =
     then_do (erc20_transfer (address_this e) to val (underlying st))
       (\<lambda>u. Inr (True, (record_call (TransferCall to val) st)\<lparr>underlying := u\<rparr>))"

definition pieUSD_deposit :: "env \<Rightarrow> uint256 \<Rightarrow> chain \<Rightarrow> chain result" where
  "pieUSD_deposit e amount st =
     (if \<not> 0 < amount then Inl (Error ''Amount must be > 0'')
      else
        then_do (usdt_transferFrom e (msg_sender e) (address_this e) amount st) (\<lambda>(success, st1).
          if \<not> success then Inl DepositFailed
          else then_do (mint_internal (msg_sender e) amount st1) (\<lambda>st2.
            Inr (emit (Deposit (msg_sender e) amount) st2))))"

definition pieUSD_redeem :: "env \<Rightarrow> uint256 \<Rightarrow> chain \<Rightarrow> chain result" where
  "pieUSD_redeem e amount st =
     (if \<not> 0 < amount then Inl (Error ''Amount must be > 0'')
      else if \<not> amount \<le> balanceOf st (msg_sender e) then Inl (Error ''Insufficient balance'')
      else
        then_do (burn_internal (msg_sender e) amount st) (\<lambda>st1.
        then_do (usdt_transfer e (msg_sender e) amount st1) (\<lambda>(success, st2).
          if \<not> success then Inl RedeemFailed
          else Inr (emit (Redeem (msg_sender e) amount) st2))))"

text \<open>The calls that consume the authorization of a given authorizer and nonce: the
  transfers and receptions signed by that authorizer with that nonce, and the
  cancellation of that nonce.\<close>

fun authorization_call :: "call \<Rightarrow> address \<Rightarrow> bytes32 \<Rightarrow> bool" where
  "authorization_call (CallDeposit amount) a n = False"
| "authorization_call (CallRedeem amount) a n = False"
| "authorization_call (CallTransferWithAuthorization from to val va vb nonce v r s) a n =
     (from = a \<and> nonce = n)"
| "authorization_call (CallTransferWithAuthorizationSig from to val va vb nonce signature) a n =
     (from = a \<and> nonce = n)"
| "authorization_call (CallReceiveWithAuthorization from to val va vb nonce v r s) a n =
     (from = a \<and> nonce = n)"
| "authorization_call (CallReceiveWithAuthorizationSig from to val va vb nonce signature) a n =
     (from = a \<and> nonce = n)"
| "authorization_call (CallCancelAuthorization authorizer nonce v r s) a n =
     (authorizer = a \<and> nonce = n)"

text \<open>The supply invariant of an ERC-20 ledger: the balances add up to the total supply.\<close>

definition supply_consistent :: "erc20 \<Rightarrow> bool" where
  "supply_consistent t \<longleftrightarrow> (\<Sum>a\<in>UNIV. unat (balances t a)) = unat (totalSupply t)"

section \<open>Sample data\<close>

text \<open>
  A small concrete setting in which the theorems below are exercised: a toy instance of
  the cryptographic parameters whose \<^verbatim>\<open>ecrecover\<close> reads the signer from the
  \<open>r\<close> component, and a ledger in which account 1 holds wrapped and external funds and
  has approved the contract (address 9) to pull 50 units of the external token.
\<close>

definition sample_crypto :: crypto where
  "sample_crypto = \<lparr>keccak256 = (\<lambda>bs. 0), ecrecover = (\<lambda>h v r s. ucast r), domainSeparatorV4 = 0\<rparr>"

definition sample_chain :: chain where
  "sample_chain =
     \<lparr>authorizationStates = (\<lambda>a n. False),
      wrapped = \<lparr>balances = (\<lambda>a. if a = 1 then 40 else 0), allowances = (\<lambda>a b. 0),
                 totalSupply = 40\<rparr>,
      status = NOT_ENTERED,
      underlying = \<lparr>balances = (\<lambda>a. if a = 1 then 100 else if a = 9 then 40 else 0),
                    allowances = (\<lambda>a b. if a = 1 \<and> b = 9 then 50 else 0),
                    totalSupply = 140\<rparr>,
      events = [], calls = []\<rparr>"

definition sample_env :: "address \<Rightarrow> uint256 \<Rightarrow> env" where
  "sample_env caller t = \<lparr>msg_sender = caller, address_this = 9, block_timestamp = t\<rparr>"

text \<open>The same ledger after account 1's authorization with nonce 0 (10 units to account 2,
  valid from time 0 to time 20) has been executed at time 10.\<close>

definition sample_chain_used :: chain where
  "sample_chain_used =
     transact sample_crypto
       (sample_env 5 10, CallTransferWithAuthorization 1 2 10 0 20 0 27 1 1) sample_chain"

text \<open>A packed signature with r = 1, s = 1 and v = 27.\<close>

definition sample_signature :: bytes where
  "sample_signature = replicate 31 0 @ [1] @ replicate 31 0 @ [1] @ [27]"

section \<open>Basic facts about the model\<close>

lemma then_do_Inl [simp]: "then_do (Inl e) f = Inl e"
  by (simp add: then_do_def)

lemma then_do_Inr [simp]: "then_do (Inr x) f = f x"
  by (simp add: then_do_def)

lemma then_do_eq_Inr: "then_do m f = Inr y \<longleftrightarrow> (\<exists>x. m = Inr x \<and> f x = Inr y)"
  by (cases m) simp_all

lemma requireUnused_Inr:
  "requireUnusedAuthorization a n st = Inr u \<longleftrightarrow> \<not> authorizationStates st a n"
  by (simp add: requireUnusedAuthorization_def)

lemma requireUnused_used:
  "authorizationStates st a n \<Longrightarrow> requireUnusedAuthorization a n st = Inl AuthorizationAlreadyUsed"
  by (simp add: requireUnusedAuthorization_def)

lemma requireValid_Inr:
  "requireValidAuthorization e a n va vb st = Inr u \<longleftrightarrow>
     va \<le> block_timestamp e \<and> block_timestamp e \<le> vb \<and> \<not> authorizationStates st a n"
  by (auto simp: requireValidAuthorization_def requireUnusedAuthorization_def)

lemma requireValid_used:
  "authorizationStates st a n \<Longrightarrow> requireValidAuthorization e a n va vb st \<noteq> Inr u"
  by (simp add: requireValid_Inr)

lemma requireValid_used_window:
  "authorizationStates st a n \<Longrightarrow> va \<le> block_timestamp e \<Longrightarrow> block_timestamp e \<le> vb \<Longrightarrow>
   requireValidAuthorization e a n va vb st = Inl AuthorizationAlreadyUsed"
  by (auto simp: requireValidAuthorization_def requireUnusedAuthorization_def)

lemma recover_vrs_nonzero: "recover_vrs K h v r s = Inr a \<Longrightarrow> a \<noteq> 0"
  by (auto simp: recover_vrs_def Let_def split: if_splits)


text \<open>The sample packed signature decomposes into v = 27, r = 1, s = 1.\<close>

lemma sample_signature_parts:
  "length sample_signature = 65" "sig_v sample_signature = 27"
  "sig_r sample_signature = 1" "sig_s sample_signature = 1"
  by (simp_all add: sig_v_def sig_r_def sig_s_def sample_signature_def word_rcat_def
        eval_nat_numeral nth_append)

text \<open>What the internal transfer does to the state when it goes through.\<close>

lemma erc20_transfer_Inr:
  "erc20_transfer from to val t = Inr t' \<longleftrightarrow>
     from \<noteq> 0 \<and> to \<noteq> 0 \<and> val \<le> balances t from \<and>
     t' = t\<lparr>balances := ((balances t)(from := balances t from - val))
              (to := ((balances t)(from := balances t from - val)) to + val)\<rparr>"
  by (auto simp: erc20_transfer_def erc20_update_def not_less)

lemma transfer_internal_Inr:
  "transfer_internal from to val st = Inr st' \<longleftrightarrow>
     from \<noteq> 0 \<and> to \<noteq> 0 \<and> val \<le> balanceOf st from \<and>
     st' = st\<lparr>wrapped := (wrapped st)\<lparr>balances := ((balances (wrapped st))
                   (from := balances (wrapped st) from - val))
                   (to := ((balances (wrapped st))(from := balances (wrapped st) from - val)) to + val)\<rparr>,
              events := events st @ [Transfer from to val]\<rparr>"
  by (auto simp: transfer_internal_def then_do_eq_Inr erc20_transfer_Inr emit_def balanceOf_def)

lemma transfer_internal_auth:
  "transfer_internal from to val st = Inr st' \<Longrightarrow> authorizationStates st' = authorizationStates st"
  by (simp add: transfer_internal_Inr)

lemma executeAuthorization_auth:
  "authorizationStates (executeAuthorization a to val n st) a' n' =
     (authorizationStates st a' n' \<or> (a' = a \<and> n' = n))"
  by (simp add: executeAuthorization_def emit_def)

text \<open>When the two transfer overloads, the two receive overloads and the cancellation
  go through.\<close>

lemma transferWithAuthorization_Inr:
  "transferWithAuthorization K e from to val va vb nonce v r s st = Inr st' \<longleftrightarrow>
     va \<le> block_timestamp e \<and> block_timestamp e \<le> vb \<and> \<not> authorizationStates st from nonce \<and>
     recover_vrs K (transfer_digest K from to val va vb nonce) v r s = Inr from \<and>
     transfer_internal from to val (executeAuthorization from to val nonce st) = Inr st'"
  by (auto simp: transferWithAuthorization_def then_do_eq_Inr requireValid_Inr split: if_splits)

lemma transferWithAuthorization_sig_Inr:
  "transferWithAuthorization_sig K e from to val va vb nonce sg st = Inr st' \<longleftrightarrow>
     va \<le> block_timestamp e \<and> block_timestamp e \<le> vb \<and> \<not> authorizationStates st from nonce \<and>
     recover_sig K (transfer_digest K from to val va vb nonce) sg = Inr from \<and>
     transfer_internal from to val (executeAuthorization from to val nonce st) = Inr st'"
  by (auto simp: transferWithAuthorization_sig_def then_do_eq_Inr requireValid_Inr split: if_splits)

lemma receiveWithAuthorization_Inr:
  "receiveWithAuthorization K e from to val va vb nonce v r s st = Inr st' \<longleftrightarrow>
     to = msg_sender e \<and>
     va \<le> block_timestamp e \<and> block_timestamp e \<le> vb \<and> \<not> authorizationStates st from nonce \<and>
     recover_vrs K (receive_digest K from to val va vb nonce) v r s = Inr from \<and>
     transfer_internal from to val (executeAuthorization from to val nonce st) = Inr st'"
  by (auto simp: receiveWithAuthorization_def then_do_eq_Inr requireValid_Inr split: if_splits)

lemma receiveWithAuthorization_sig_Inr:
  "receiveWithAuthorization_sig K e from to val va vb nonce sg st = Inr st' \<longleftrightarrow>
     to = msg_sender e \<and>
     va \<le> block_timestamp e \<and> block_timestamp e \<le> vb \<and> \<not> authorizationStates st from nonce \<and>
     recover_sig K (receive_digest K from to val va vb nonce) sg = Inr from \<and>
     transfer_internal from to val (executeAuthorization from to val nonce st) = Inr st'"
  by (auto simp: receiveWithAuthorization_sig_def then_do_eq_Inr requireValid_Inr split: if_splits)

lemma cancelAuthorization_Inr:
  "cancelAuthorization K a n v r s st = Inr st' \<longleftrightarrow>
     \<not> authorizationStates st a n \<and>
     recover_vrs K (cancel_digest K a n) v r s = Inr a \<and>
     st' = st\<lparr>authorizationStates := (authorizationStates st)
                 (a := (authorizationStates st a)(n := True)),
              events := events st @ [AuthorizationCanceled a n]\<rparr>"
  by (auto simp: cancelAuthorization_def then_do_eq_Inr requireUnused_Inr emit_def split: if_splits)

section \<open>The time window\<close>

text \<open>
  Claim C2, as stated, fails when the window is inverted: with validAfter = 10,
  validBefore = 5 and current time 7 the time is past validBefore, but the check
  reports not-yet-valid, because the lower bound is tested first.
\<close>

theorem time_window_inverted_counterexample:
  "(5 :: uint256) < block_timestamp (sample_env 1 7) \<and>
   requireValidAuthorization (sample_env 1 7) 1 0 10 5 sample_chain = Inl AuthorizationNotYetValid \<and>
   requireValidAuthorization (sample_env 1 7) 1 0 10 5 sample_chain \<noteq> Inl AuthorizationExpired"
  by (simp add: requireValidAuthorization_def sample_env_def)

text \<open>
  Claim C2, amended: for every authorization whose window is well formed
  (validAfter \<le> validBefore) and every current time t, the time-window check accepts
  exactly the closed interval [validAfter, validBefore]. If t < validAfter the check, and
  with it the transfer, fails with not-yet-valid; if t > validBefore it fails with
  expired; at the boundary times t = validAfter and t = validBefore the time checks pass
  and only the replay check remains.
\<close>

theorem time_window_closed_interval:
  assumes "validAfter \<le> validBefore"
  shows "(block_timestamp e < validAfter \<longrightarrow>
            requireValidAuthorization e a n validAfter validBefore st = Inl AuthorizationNotYetValid \<and>
            transferWithAuthorization K e a to val validAfter validBefore n v r s st
              = Inl AuthorizationNotYetValid)
       \<and> (validBefore < block_timestamp e \<longrightarrow>
            requireValidAuthorization e a n validAfter validBefore st = Inl AuthorizationExpired \<and>
            transferWithAuthorization K e a to val validAfter validBefore n v r s st
              = Inl AuthorizationExpired)
       \<and> (block_timestamp e = validAfter \<or> block_timestamp e = validBefore \<longrightarrow>
            requireValidAuthorization e a n validAfter validBefore st
              = requireUnusedAuthorization a n st)
       \<and> (requireValidAuthorization e a n validAfter validBefore st
              \<in> {Inl AuthorizationNotYetValid, Inl AuthorizationExpired}
            \<longleftrightarrow> \<not> (validAfter \<le> block_timestamp e \<and> block_timestamp e \<le> validBefore))"
  using assms
  by (auto simp: requireValidAuthorization_def requireUnusedAuthorization_def
        transferWithAuthorization_def)

theorem time_window_closed_interval_witness:
  "(10 :: uint256) \<le> 20 \<and>
   requireValidAuthorization (sample_env 1 9) 1 0 10 20 sample_chain = Inl AuthorizationNotYetValid \<and>
   requireValidAuthorization (sample_env 1 21) 1 0 10 20 sample_chain = Inl AuthorizationExpired \<and>
   requireValidAuthorization (sample_env 1 10) 1 0 10 20 sample_chain = Inr () \<and>
   requireValidAuthorization (sample_env 1 20) 1 0 10 20 sample_chain = Inr ()"
proof -
  have w: "(10 :: uint256) \<le> 20" by simp
  show ?thesis
    using time_window_closed_interval [OF w, of "sample_env 1 9" 1 0 sample_chain]
      time_window_closed_interval [OF w, of "sample_env 1 21" 1 0 sample_chain]
      time_window_closed_interval [OF w, of "sample_env 1 10" 1 0 sample_chain]
      time_window_closed_interval [OF w, of "sample_env 1 20" 1 0 sample_chain]
    by (simp add: sample_env_def sample_chain_def requireUnusedAuthorization_def)
qed

text \<open>When deposit and redeem go through, and the state they leave.\<close>

lemma nonReentrant_Inr:
  "nonReentrant st body = Inr st' \<longleftrightarrow>
     status st \<noteq> ENTERED \<and> (\<exists>st1. body (st\<lparr>status := ENTERED\<rparr>) = Inr st1 \<and> st' = st1\<lparr>status := NOT_ENTERED\<rparr>)"
  by (auto simp: nonReentrant_def then_do_eq_Inr)

lemma deposit_unfold:
  "deposit e x st =
     (if status st = ENTERED then Inl ReentrancyGuardReentrantCall
      else if x = 0 then Inl AmountMustBeGreaterThanZero
      else case erc20_transferFrom (address_this e) (msg_sender e) (address_this e) x (underlying st) of
        Inl err \<Rightarrow> Inl err
      | Inr u \<Rightarrow>
          if balances u (address_this e) < balances (underlying st) (address_this e)
          then Inl PanicArithmetic
          else if balances u (address_this e) - balances (underlying st) (address_this e) \<noteq> x
          then Inl TransferAmountMismatch
          else case erc20_mint (msg_sender e) x (wrapped st) of
            Inl err \<Rightarrow> Inl err
          | Inr w \<Rightarrow>
              Inr (st\<lparr>wrapped := w, status := NOT_ENTERED, underlying := u,
                 events := events st @ [Transfer 0 (msg_sender e) x, Deposit (msg_sender e) x],
                 calls := calls st @
                   [(BalanceOfCall (address_this e), ENTERED, wrapped st),
                    (TransferFromCall (msg_sender e) (address_this e) x, ENTERED, wrapped st),
                    (BalanceOfCall (address_this e), ENTERED, wrapped st)]\<rparr>))"
  by (simp add: deposit_def nonReentrant_def underlying_balanceOf_def record_call_def
        safeTransferFrom_def mint_internal_def emit_def Let_def
        split: sum.splits)

lemma deposit_Inr:
  "deposit e x st = Inr st' \<longleftrightarrow>
     status st \<noteq> ENTERED \<and> x \<noteq> 0 \<and>
     (\<exists>u w. erc20_transferFrom (address_this e) (msg_sender e) (address_this e) x (underlying st) = Inr u \<and>
        balances (underlying st) (address_this e) \<le> balances u (address_this e) \<and>
        balances u (address_this e) - balances (underlying st) (address_this e) = x \<and>
        erc20_mint (msg_sender e) x (wrapped st) = Inr w \<and>
        st' = st\<lparr>wrapped := w, status := NOT_ENTERED, underlying := u,
                 events := events st @ [Transfer 0 (msg_sender e) x, Deposit (msg_sender e) x],
                 calls := calls st @
                   [(BalanceOfCall (address_this e), ENTERED, wrapped st),
                    (TransferFromCall (msg_sender e) (address_this e) x, ENTERED, wrapped st),
                    (BalanceOfCall (address_this e), ENTERED, wrapped st)]\<rparr>)"
  unfolding deposit_unfold by (auto simp: not_less split: sum.splits)

lemma redeem_unfold:
  "redeem e x st =
     (if status st = ENTERED then Inl ReentrancyGuardReentrantCall
      else if x = 0 then Inl AmountMustBeGreaterThanZero
      else if balanceOf st (msg_sender e) < x then Inl InsufficientBalance
      else case erc20_burn (msg_sender e) x (wrapped st) of
        Inl err \<Rightarrow> Inl err
      | Inr w \<Rightarrow>
          (case erc20_transfer (address_this e) (msg_sender e) x (underlying st) of
            Inl err \<Rightarrow> Inl err
          | Inr u \<Rightarrow>
              Inr (st\<lparr>wrapped := w, status := NOT_ENTERED, underlying := u,
                 events := events st @ [Transfer (msg_sender e) 0 x, Redeem (msg_sender e) x],
                 calls := calls st @ [(TransferCall (msg_sender e) x, ENTERED, w)]\<rparr>)))"
  by (simp add: redeem_def nonReentrant_def record_call_def balanceOf_def
        safeTransfer_def burn_internal_def emit_def Let_def
        split: sum.splits)

lemma redeem_Inr:
  "redeem e x st = Inr st' \<longleftrightarrow>
     status st \<noteq> ENTERED \<and> x \<noteq> 0 \<and> x \<le> balanceOf st (msg_sender e) \<and>
     (\<exists>w u. erc20_burn (msg_sender e) x (wrapped st) = Inr w \<and>
        erc20_transfer (address_this e) (msg_sender e) x (underlying st) = Inr u \<and>
        st' = st\<lparr>wrapped := w, status := NOT_ENTERED, underlying := u,
                 events := events st @ [Transfer (msg_sender e) 0 x, Redeem (msg_sender e) x],
                 calls := calls st @ [(TransferCall (msg_sender e) x, ENTERED, w)]\<rparr>)"
  unfolding redeem_unfold by (auto simp: not_less split: sum.splits)

text \<open>No function clears an entry of the authorization registry.\<close>

lemma dispatch_keeps_used:
  assumes "dispatch K e c st = Inr st'" and "authorizationStates st a n"
  shows "authorizationStates st' a n"
proof (cases c)
  case (CallDeposit x)
  with assms show ?thesis by (auto simp: deposit_Inr)
next
  case (CallRedeem x)
  with assms show ?thesis by (auto simp: redeem_Inr)
next
  case (CallTransferWithAuthorization src dst val va vb nonce v r s)
  with assms show ?thesis
    by (auto simp: transferWithAuthorization_Inr transfer_internal_Inr executeAuthorization_def emit_def)
next
  case (CallTransferWithAuthorizationSig src dst val va vb nonce sg)
  with assms show ?thesis
    by (auto simp: transferWithAuthorization_sig_Inr transfer_internal_Inr executeAuthorization_def emit_def)
next
  case (CallReceiveWithAuthorization src dst val va vb nonce v r s)
  with assms show ?thesis
    by (auto simp: receiveWithAuthorization_Inr transfer_internal_Inr executeAuthorization_def emit_def)
next
  case (CallReceiveWithAuthorizationSig src dst val va vb nonce sg)
  with assms show ?thesis
    by (auto simp: receiveWithAuthorization_sig_Inr transfer_internal_Inr executeAuthorization_def emit_def)
next
  case (CallCancelAuthorization authorizer nonce v r s)
  with assms show ?thesis by (auto simp: cancelAuthorization_Inr)
qed

lemma dispatch_marks_used:
  assumes "dispatch K e c st = Inr st'" and "authorization_call c a n"
  shows "authorizationStates st' a n"
proof (cases c)
  case (CallTransferWithAuthorization src dst val va vb nonce v r s)
  with assms show ?thesis
    by (auto simp: transferWithAuthorization_Inr transfer_internal_Inr executeAuthorization_def emit_def)
next
  case (CallTransferWithAuthorizationSig src dst val va vb nonce sg)
  with assms show ?thesis
    by (auto simp: transferWithAuthorization_sig_Inr transfer_internal_Inr executeAuthorization_def emit_def)
next
  case (CallReceiveWithAuthorization src dst val va vb nonce v r s)
  with assms show ?thesis
    by (auto simp: receiveWithAuthorization_Inr transfer_internal_Inr executeAuthorization_def emit_def)
next
  case (CallReceiveWithAuthorizationSig src dst val va vb nonce sg)
  with assms show ?thesis
    by (auto simp: receiveWithAuthorization_sig_Inr transfer_internal_Inr executeAuthorization_def emit_def)
next
  case (CallCancelAuthorization authorizer nonce v r s)
  with assms show ?thesis by (auto simp: cancelAuthorization_Inr)
qed (use assms in simp_all)

lemma dispatch_used_fails:
  assumes "authorizationStates st a n" and "authorization_call c a n"
  shows "\<exists>err. dispatch K e c st = Inl err"
proof (cases "dispatch K e c st")
  case (Inl err)
  then show ?thesis by blast
next
  case (Inr st')
  with assms have False
    by (cases c)
      (auto simp: transferWithAuthorization_Inr transferWithAuthorization_sig_Inr
         receiveWithAuthorization_Inr receiveWithAuthorization_sig_Inr cancelAuthorization_Inr)
  then show ?thesis ..
qed

lemma transact_keeps_used:
  "authorizationStates st a n \<Longrightarrow> authorizationStates (transact K tx st) a n"
  by (cases "dispatch K (fst tx) (snd tx) st")
    (auto simp: transact_def dest: dispatch_keeps_used)

lemma transact_all_keeps_used:
  "authorizationStates st a n \<Longrightarrow> authorizationStates (transact_all K txs st) a n"
  by (induction txs arbitrary: st) (auto intro: transact_keeps_used)

section \<open>The authorization registry is monotone\<close>

text \<open>
  Claim C1, as stated, fails on the reported error: a transfer attempt that replays a
  used authorization after its window has closed is rejected with expired, not with
  already-used, because the time window is tested before the registry. Here account 1
  authorizes a transfer of 10 to account 2 with nonce 0, valid from 0 to 20; it is
  executed at time 10 and replayed at time 30.
\<close>

theorem replay_after_expiry_counterexample:
  "\<not> isl (dispatch sample_crypto (sample_env 5 10)
            (CallTransferWithAuthorization 1 2 10 0 20 0 27 1 1) sample_chain) \<and>
   authorizationState (transact sample_crypto
       (sample_env 5 10, CallTransferWithAuthorization 1 2 10 0 20 0 27 1 1) sample_chain) 1 0 \<and>
   transferWithAuthorization sample_crypto (sample_env 5 30) 1 2 10 0 20 0 27 1 1
     (transact sample_crypto
       (sample_env 5 10, CallTransferWithAuthorization 1 2 10 0 20 0 27 1 1) sample_chain)
     = Inl AuthorizationExpired"
  by (simp add: transact_def transferWithAuthorization_def requireValidAuthorization_def
        requireUnusedAuthorization_def recover_vrs_def secp256k1_half_order_def
        transfer_internal_def erc20_transfer_def erc20_update_def executeAuthorization_def
        emit_def authorizationState_def sample_crypto_def sample_env_def sample_chain_def)

text \<open>
  Claim C1, amended: for every authorizer and nonce, the authorization state goes at
  most once from unused to used-or-canceled and never back. After any successful
  transferWithAuthorization, receiveWithAuthorization or cancelAuthorization for
  (authorizer, nonce), and after any further sequence of deposit, redeem, transfer,
  receive and cancel calls, the state of (authorizer, nonce) is still used, and every
  later transfer, receive or cancel attempt on that same (authorizer, nonce) fails. A
  cancel attempt fails with already-used. A transfer attempt fails with not-yet-valid
  before its time window, with expired after it, and with already-used inside it. A
  receive attempt fails with unauthorized-receiver when the caller is not the declared
  \<open>to\<close> party, and otherwise with the same error as a transfer attempt.
\<close>

theorem authorization_used_at_most_once:
  assumes "authorization_call c0 a n" and "dispatch K e0 c0 st0 = Inr st1"
  shows "authorizationState (transact_all K txs st1) a n
       \<and> (\<forall>e c. authorization_call c a n \<longrightarrow>
             (\<exists>err. dispatch K e c (transact_all K txs st1) = Inl err))
       \<and> (\<forall>v r s. cancelAuthorization K a n v r s (transact_all K txs st1)
             = Inl AuthorizationAlreadyUsed)
       \<and> (\<forall>e to val va vb v r s sg.
             transferWithAuthorization K e a to val va vb n v r s (transact_all K txs st1)
               = (if block_timestamp e < va then Inl AuthorizationNotYetValid
                  else if vb < block_timestamp e then Inl AuthorizationExpired
                  else Inl AuthorizationAlreadyUsed) \<and>
             transferWithAuthorization_sig K e a to val va vb n sg (transact_all K txs st1)
               = (if block_timestamp e < va then Inl AuthorizationNotYetValid
                  else if vb < block_timestamp e then Inl AuthorizationExpired
                  else Inl AuthorizationAlreadyUsed) \<and>
             receiveWithAuthorization K e a to val va vb n v r s (transact_all K txs st1)
               = (if to \<noteq> msg_sender e then Inl UnauthorizedReceiver
                  else if block_timestamp e < va then Inl AuthorizationNotYetValid
                  else if vb < block_timestamp e then Inl AuthorizationExpired
                  else Inl AuthorizationAlreadyUsed) \<and>
             receiveWithAuthorization_sig K e a to val va vb n sg (transact_all K txs st1)
               = (if to \<noteq> msg_sender e then Inl UnauthorizedReceiver
                  else if block_timestamp e < va then Inl AuthorizationNotYetValid
                  else if vb < block_timestamp e then Inl AuthorizationExpired
                  else Inl AuthorizationAlreadyUsed))"
proof -
  have "authorizationStates st1 a n"
    using assms by (rule dispatch_marks_used [rotated])
  then have used: "authorizationStates (transact_all K txs st1) a n"
    by (rule transact_all_keeps_used)
  have "authorizationState (transact_all K txs st1) a n"
    using used by (simp add: authorizationState_def)
  moreover have "\<forall>e c. authorization_call c a n \<longrightarrow>
      (\<exists>err. dispatch K e c (transact_all K txs st1) = Inl err)"
    using used by (blast intro: dispatch_used_fails)
  moreover have "\<forall>v r s. cancelAuthorization K a n v r s (transact_all K txs st1)
      = Inl AuthorizationAlreadyUsed"
    using used by (simp add: cancelAuthorization_def requireUnused_used)
  moreover have "\<forall>e to val va vb v r s sg.
      transferWithAuthorization K e a to val va vb n v r s (transact_all K txs st1)
        = (if block_timestamp e < va then Inl AuthorizationNotYetValid
           else if vb < block_timestamp e then Inl AuthorizationExpired
           else Inl AuthorizationAlreadyUsed) \<and>
      transferWithAuthorization_sig K e a to val va vb n sg (transact_all K txs st1)
        = (if block_timestamp e < va then Inl AuthorizationNotYetValid
           else if vb < block_timestamp e then Inl AuthorizationExpired
           else Inl AuthorizationAlreadyUsed) \<and>
      receiveWithAuthorization K e a to val va vb n v r s (transact_all K txs st1)
        = (if to \<noteq> msg_sender e then Inl UnauthorizedReceiver
           else if block_timestamp e < va then Inl AuthorizationNotYetValid
           else if vb < block_timestamp e then Inl AuthorizationExpired
           else Inl AuthorizationAlreadyUsed) \<and>
      receiveWithAuthorization_sig K e a to val va vb n sg (transact_all K txs st1)
        = (if to \<noteq> msg_sender e then Inl UnauthorizedReceiver
           else if block_timestamp e < va then Inl AuthorizationNotYetValid
           else if vb < block_timestamp e then Inl AuthorizationExpired
           else Inl AuthorizationAlreadyUsed)"
    using used
    by (simp add: transferWithAuthorization_def transferWithAuthorization_sig_def
          receiveWithAuthorization_def receiveWithAuthorization_sig_def
          requireValidAuthorization_def requireUnused_used)
  ultimately show ?thesis by blast
qed

theorem authorization_used_at_most_once_witness:
  "authorization_call (CallTransferWithAuthorization 1 2 10 0 20 0 27 1 1) 1 0 \<and>
   dispatch sample_crypto (sample_env 5 10)
       (CallTransferWithAuthorization 1 2 10 0 20 0 27 1 1) sample_chain
     = Inr sample_chain_used \<and>
   authorizationState
     (transact_all sample_crypto [(sample_env 1 11, CallDeposit 5)] sample_chain_used) 1 0 \<and>
   cancelAuthorization sample_crypto 1 0 27 1 1
     (transact_all sample_crypto [(sample_env 1 11, CallDeposit 5)] sample_chain_used)
     = Inl AuthorizationAlreadyUsed \<and>
   transferWithAuthorization sample_crypto (sample_env 5 12) 1 2 10 0 20 0 27 1 1
     (transact_all sample_crypto [(sample_env 1 11, CallDeposit 5)] sample_chain_used)
     = Inl AuthorizationAlreadyUsed \<and>
   transferWithAuthorization sample_crypto (sample_env 5 30) 1 2 10 0 20 0 27 1 1
     (transact_all sample_crypto [(sample_env 1 11, CallDeposit 5)] sample_chain_used)
     = Inl AuthorizationExpired \<and>
   receiveWithAuthorization sample_crypto (sample_env 2 12) 1 2 10 0 20 0 27 1 1
     (transact_all sample_crypto [(sample_env 1 11, CallDeposit 5)] sample_chain_used)
     = Inl AuthorizationAlreadyUsed \<and>
   receiveWithAuthorization sample_crypto (sample_env 5 12) 1 2 10 0 20 0 27 1 1
     (transact_all sample_crypto [(sample_env 1 11, CallDeposit 5)] sample_chain_used)
     = Inl UnauthorizedReceiver \<and>
   receiveWithAuthorization_sig sample_crypto (sample_env 5 12) 1 2 10 0 20 0 sample_signature
     (transact_all sample_crypto [(sample_env 1 11, CallDeposit 5)] sample_chain_used)
     = Inl UnauthorizedReceiver"
proof -
  have c: "authorization_call (CallTransferWithAuthorization 1 2 10 0 20 0 27 1 1) 1 0"
    by simp
  have d: "dispatch sample_crypto (sample_env 5 10)
       (CallTransferWithAuthorization 1 2 10 0 20 0 27 1 1) sample_chain
     = Inr sample_chain_used"
    by (simp add: sample_chain_used_def transact_def transferWithAuthorization_def
        requireValidAuthorization_def requireUnusedAuthorization_def recover_vrs_def
        secp256k1_half_order_def transfer_internal_def erc20_transfer_def erc20_update_def
        executeAuthorization_def emit_def sample_crypto_def sample_env_def sample_chain_def)
  note w = authorization_used_at_most_once [OF c d, of "[(sample_env 1 11, CallDeposit 5)]"]
  have w1: "authorizationState
     (transact_all sample_crypto [(sample_env 1 11, CallDeposit 5)] sample_chain_used) 1 0"
    using w by blast
  have w2: "cancelAuthorization sample_crypto 1 0 27 1 1
     (transact_all sample_crypto [(sample_env 1 11, CallDeposit 5)] sample_chain_used)
     = Inl AuthorizationAlreadyUsed"
    using w by blast
  from w have all: "\<forall>e to val va vb v r s sg.
      transferWithAuthorization sample_crypto e 1 to val va vb 0 v r s
          (transact_all sample_crypto [(sample_env 1 11, CallDeposit 5)] sample_chain_used)
        = (if block_timestamp e < va then Inl AuthorizationNotYetValid
           else if vb < block_timestamp e then Inl AuthorizationExpired
           else Inl AuthorizationAlreadyUsed) \<and>
      transferWithAuthorization_sig sample_crypto e 1 to val va vb 0 sg
          (transact_all sample_crypto [(sample_env 1 11, CallDeposit 5)] sample_chain_used)
        = (if block_timestamp e < va then Inl AuthorizationNotYetValid
           else if vb < block_timestamp e then Inl AuthorizationExpired
           else Inl AuthorizationAlreadyUsed) \<and>
      receiveWithAuthorization sample_crypto e 1 to val va vb 0 v r s
          (transact_all sample_crypto [(sample_env 1 11, CallDeposit 5)] sample_chain_used)
        = (if to \<noteq> msg_sender e then Inl UnauthorizedReceiver
           else if block_timestamp e < va then Inl AuthorizationNotYetValid
           else if vb < block_timestamp e then Inl AuthorizationExpired
           else Inl AuthorizationAlreadyUsed) \<and>
      receiveWithAuthorization_sig sample_crypto e 1 to val va vb 0 sg
          (transact_all sample_crypto [(sample_env 1 11, CallDeposit 5)] sample_chain_used)
        = (if to \<noteq> msg_sender e then Inl UnauthorizedReceiver
           else if block_timestamp e < va then Inl AuthorizationNotYetValid
           else if vb < block_timestamp e then Inl AuthorizationExpired
           else Inl AuthorizationAlreadyUsed)"
    by (elim conjE)
  have w3: "transferWithAuthorization sample_crypto (sample_env 5 12) 1 2 10 0 20 0 27 1 1
     (transact_all sample_crypto [(sample_env 1 11, CallDeposit 5)] sample_chain_used)
     = Inl AuthorizationAlreadyUsed"
    using all [rule_format, of "sample_env 5 12" 2 10 0 20 27 1 1 sample_signature]
    by (simp add: sample_env_def)
  have w4: "transferWithAuthorization sample_crypto (sample_env 5 30) 1 2 10 0 20 0 27 1 1
     (transact_all sample_crypto [(sample_env 1 11, CallDeposit 5)] sample_chain_used)
     = Inl AuthorizationExpired"
    using all [rule_format, of "sample_env 5 30" 2 10 0 20 27 1 1 sample_signature]
    by (simp add: sample_env_def)
  have w5: "receiveWithAuthorization sample_crypto (sample_env 2 12) 1 2 10 0 20 0 27 1 1
     (transact_all sample_crypto [(sample_env 1 11, CallDeposit 5)] sample_chain_used)
     = Inl AuthorizationAlreadyUsed"
    using all [rule_format, of "sample_env 2 12" 2 10 0 20 27 1 1 sample_signature]
    by (simp add: sample_env_def)
  have w6: "receiveWithAuthorization sample_crypto (sample_env 5 12) 1 2 10 0 20 0 27 1 1
     (transact_all sample_crypto [(sample_env 1 11, CallDeposit 5)] sample_chain_used)
     = Inl UnauthorizedReceiver"
    using all [rule_format, of "sample_env 5 12" 2 10 0 20 27 1 1 sample_signature]
    by (simp add: sample_env_def)
  have w7: "receiveWithAuthorization_sig sample_crypto (sample_env 5 12) 1 2 10 0 20 0
     sample_signature
     (transact_all sample_crypto [(sample_env 1 11, CallDeposit 5)] sample_chain_used)
     = Inl UnauthorizedReceiver"
    using all [rule_format, of "sample_env 5 12" 2 10 0 20 27 1 1 sample_signature]
    by (simp add: sample_env_def)
  from c d w1 w2 w3 w4 w5 w6 w7 show ?thesis by blast
qed

section \<open>A transfer with authorization is all or nothing\<close>

lemma transact_Inl: "dispatch K e c st = Inl err \<Longrightarrow> transact K (e, c) st = st"
  by (simp add: transact_def)

lemma transact_Inr: "dispatch K e c st = Inr st' \<Longrightarrow> transact K (e, c) st = st'"
  by (simp add: transact_def)

lemma transfer_after_execute:
  "transfer_internal from to val (executeAuthorization from to val nonce st) = Inr st' \<longleftrightarrow>
     from \<noteq> 0 \<and> to \<noteq> 0 \<and> val \<le> balanceOf st from \<and>
     st' = st\<lparr>authorizationStates := (authorizationStates st)
                 (from := (authorizationStates st from)(nonce := True)),
              wrapped := (wrapped st)\<lparr>balances := ((balances (wrapped st))
                   (from := balances (wrapped st) from - val))
                   (to := ((balances (wrapped st))(from := balances (wrapped st) from - val)) to + val)\<rparr>,
              events := events st @ [AuthorizationUsed from to val nonce, Transfer from to val]\<rparr>"
  by (auto simp: transfer_internal_Inr executeAuthorization_def emit_def balanceOf_def)

text \<open>
  Claim C3: a successful transferWithAuthorization performs exactly two state changes as
  a unit: it marks the (from, nonce) authorization used and moves value from \<open>from\<close> to
  \<open>to\<close> (the two events are logged, nothing else in the state changes). It fails exactly
  when the time window, the replay check, the signature or the transfer fails, and then
  neither change occurs: the state after the call is the state before it, so the nonce
  keeps its state and all balances are unchanged. Both overloads behave so.
\<close>

theorem transferWithAuthorization_all_or_nothing:
  "(transferWithAuthorization K e from to val va vb nonce v r s st = Inr st' \<longrightarrow>
      st' = st\<lparr>authorizationStates := (authorizationStates st)
                  (from := (authorizationStates st from)(nonce := True)),
               wrapped := (wrapped st)\<lparr>balances := ((balances (wrapped st))
                   (from := balances (wrapped st) from - val))
                   (to := ((balances (wrapped st))(from := balances (wrapped st) from - val)) to + val)\<rparr>,
               events := events st @ [AuthorizationUsed from to val nonce, Transfer from to val]\<rparr> \<and>
      transact K (e, CallTransferWithAuthorization from to val va vb nonce v r s) st = st')
   \<and> (transferWithAuthorization_sig K e from to val va vb nonce sg st = Inr st'' \<longrightarrow>
      st'' = st\<lparr>authorizationStates := (authorizationStates st)
                  (from := (authorizationStates st from)(nonce := True)),
               wrapped := (wrapped st)\<lparr>balances := ((balances (wrapped st))
                   (from := balances (wrapped st) from - val))
                   (to := ((balances (wrapped st))(from := balances (wrapped st) from - val)) to + val)\<rparr>,
               events := events st @ [AuthorizationUsed from to val nonce, Transfer from to val]\<rparr> \<and>
      transact K (e, CallTransferWithAuthorizationSig from to val va vb nonce sg) st = st'')
   \<and> (isl (transferWithAuthorization K e from to val va vb nonce v r s st) \<longleftrightarrow>
        block_timestamp e < va \<or> vb < block_timestamp e \<or> authorizationState st from nonce \<or>
        recover_vrs K (transfer_digest K from to val va vb nonce) v r s \<noteq> Inr from \<or>
        to = 0 \<or> balanceOf st from < val)
   \<and> (isl (transferWithAuthorization K e from to val va vb nonce v r s st) \<longrightarrow>
        transact K (e, CallTransferWithAuthorization from to val va vb nonce v r s) st = st)
   \<and> (isl (transferWithAuthorization_sig K e from to val va vb nonce sg st) \<longrightarrow>
        transact K (e, CallTransferWithAuthorizationSig from to val va vb nonce sg) st = st)"
proof -
  have a: "transferWithAuthorization K e from to val va vb nonce v r s st = Inr st' \<longrightarrow>
      st' = st\<lparr>authorizationStates := (authorizationStates st)
                  (from := (authorizationStates st from)(nonce := True)),
               wrapped := (wrapped st)\<lparr>balances := ((balances (wrapped st))
                   (from := balances (wrapped st) from - val))
                   (to := ((balances (wrapped st))(from := balances (wrapped st) from - val)) to + val)\<rparr>,
               events := events st @ [AuthorizationUsed from to val nonce, Transfer from to val]\<rparr> \<and>
      transact K (e, CallTransferWithAuthorization from to val va vb nonce v r s) st = st'"
    by (auto simp: transact_def dest!: transferWithAuthorization_Inr [THEN iffD1]
          transfer_after_execute [THEN iffD1])
  have b: "transferWithAuthorization_sig K e from to val va vb nonce sg st = Inr st'' \<longrightarrow>
      st'' = st\<lparr>authorizationStates := (authorizationStates st)
                  (from := (authorizationStates st from)(nonce := True)),
               wrapped := (wrapped st)\<lparr>balances := ((balances (wrapped st))
                   (from := balances (wrapped st) from - val))
                   (to := ((balances (wrapped st))(from := balances (wrapped st) from - val)) to + val)\<rparr>,
               events := events st @ [AuthorizationUsed from to val nonce, Transfer from to val]\<rparr> \<and>
      transact K (e, CallTransferWithAuthorizationSig from to val va vb nonce sg) st = st''"
    by (auto simp: transact_def dest!: transferWithAuthorization_sig_Inr [THEN iffD1]
          transfer_after_execute [THEN iffD1])
  have "\<not> isl (transferWithAuthorization K e from to val va vb nonce v r s st) \<longleftrightarrow>
      (\<exists>x. transferWithAuthorization K e from to val va vb nonce v r s st = Inr x)"
    by (cases "transferWithAuthorization K e from to val va vb nonce v r s st") simp_all
  also have "\<dots> \<longleftrightarrow> \<not> (block_timestamp e < va \<or> vb < block_timestamp e \<or>
        authorizationState st from nonce \<or>
        recover_vrs K (transfer_digest K from to val va vb nonce) v r s \<noteq> Inr from \<or>
        to = 0 \<or> balanceOf st from < val)"
    by (auto simp: transferWithAuthorization_Inr transfer_after_execute authorizationState_def
          not_less dest: recover_vrs_nonzero)
  finally have c: "isl (transferWithAuthorization K e from to val va vb nonce v r s st) \<longleftrightarrow>
        block_timestamp e < va \<or> vb < block_timestamp e \<or> authorizationState st from nonce \<or>
        recover_vrs K (transfer_digest K from to val va vb nonce) v r s \<noteq> Inr from \<or>
        to = 0 \<or> balanceOf st from < val"
    by blast
  have d: "isl (transferWithAuthorization K e from to val va vb nonce v r s st) \<longrightarrow>
        transact K (e, CallTransferWithAuthorization from to val va vb nonce v r s) st = st"
    by (cases "transferWithAuthorization K e from to val va vb nonce v r s st")
      (simp_all add: transact_def)
  have f: "isl (transferWithAuthorization_sig K e from to val va vb nonce sg st) \<longrightarrow>
        transact K (e, CallTransferWithAuthorizationSig from to val va vb nonce sg) st = st"
    by (cases "transferWithAuthorization_sig K e from to val va vb nonce sg st")
      (simp_all add: transact_def)
  from a b c d f show ?thesis by blast
qed

theorem transferWithAuthorization_all_or_nothing_witness:
  "transferWithAuthorization sample_crypto (sample_env 5 10) 1 2 10 0 20 0 27 1 1 sample_chain
     = Inr (sample_chain\<lparr>authorizationStates := (authorizationStates sample_chain)
                  (1 := (authorizationStates sample_chain 1)(0 := True)),
               wrapped := (wrapped sample_chain)\<lparr>balances := ((balances (wrapped sample_chain))
                   (1 := balances (wrapped sample_chain) 1 - 10))
                   (2 := ((balances (wrapped sample_chain))(1 := balances (wrapped sample_chain) 1 - 10)) 2 + 10)\<rparr>,
               events := events sample_chain @ [AuthorizationUsed 1 2 10 0, Transfer 1 2 10]\<rparr>) \<and>
   isl (transferWithAuthorization sample_crypto (sample_env 5 10) 1 2 41 0 20 0 27 1 1 sample_chain) \<and>
   transact sample_crypto (sample_env 5 10, CallTransferWithAuthorization 1 2 41 0 20 0 27 1 1)
     sample_chain = sample_chain"
proof -
  have ok: "\<exists>x. transferWithAuthorization sample_crypto (sample_env 5 10) 1 2 10 0 20 0 27 1 1
      sample_chain = Inr x"
    by (simp add: transferWithAuthorization_def requireValidAuthorization_def
        requireUnusedAuthorization_def recover_vrs_def secp256k1_half_order_def
        transfer_internal_def erc20_transfer_def erc20_update_def executeAuthorization_def
        emit_def sample_crypto_def sample_env_def sample_chain_def)
  have short: "balanceOf sample_chain 1 < 41"
    by (simp add: balanceOf_def sample_chain_def)
  from ok obtain x where x: "transferWithAuthorization sample_crypto (sample_env 5 10)
      1 2 10 0 20 0 27 1 1 sample_chain = Inr x"
    by blast
  show ?thesis
    using x short
      transferWithAuthorization_all_or_nothing
        [of sample_crypto "sample_env 5 10" 1 2 10 0 20 0 27 1 1 sample_chain x]
      transferWithAuthorization_all_or_nothing
        [of sample_crypto "sample_env 5 10" 1 2 41 0 20 0 27 1 1 sample_chain]
    by simp
qed

section \<open>Who may submit an authorization\<close>




section \<open>The order of the verification rules\<close>

text \<open>
  Claim C6: the verification rules are applied in the stated order with short-circuiting.
  Whatever else is wrong with an authorization, a time before validAfter reports
  not-yet-valid; otherwise a time after validBefore reports expired (also when the
  authorization is already used); otherwise a used nonce reports already-used; otherwise
  a signature that does not recover \<open>from\<close> reports an invalid-signature error. When a
  time or nonce rule fails the signature is not looked at: the outcome is the same for
  every signature and every instance of the cryptographic primitives. Both overloads
  behave so.
\<close>

theorem verification_rules_in_order:
  "(block_timestamp e < va \<longrightarrow>
      transferWithAuthorization K e from to val va vb nonce v r s st = Inl AuthorizationNotYetValid \<and>
      transferWithAuthorization_sig K e from to val va vb nonce sg st = Inl AuthorizationNotYetValid)
   \<and> (va \<le> block_timestamp e \<and> vb < block_timestamp e \<longrightarrow>
      transferWithAuthorization K e from to val va vb nonce v r s st = Inl AuthorizationExpired \<and>
      transferWithAuthorization_sig K e from to val va vb nonce sg st = Inl AuthorizationExpired)
   \<and> (va \<le> block_timestamp e \<and> block_timestamp e \<le> vb \<and> authorizationState st from nonce \<longrightarrow>
      transferWithAuthorization K e from to val va vb nonce v r s st = Inl AuthorizationAlreadyUsed \<and>
      transferWithAuthorization_sig K e from to val va vb nonce sg st = Inl AuthorizationAlreadyUsed)
   \<and> (va \<le> block_timestamp e \<and> block_timestamp e \<le> vb \<and> \<not> authorizationState st from nonce \<and>
        recover_vrs K (transfer_digest K from to val va vb nonce) v r s \<noteq> Inr from \<longrightarrow>
      transferWithAuthorization K e from to val va vb nonce v r s st
        \<in> {Inl InvalidAuthorization, Inl ECDSAInvalidSignature, Inl ECDSAInvalidSignatureS})
   \<and> (va \<le> block_timestamp e \<and> block_timestamp e \<le> vb \<and> \<not> authorizationState st from nonce \<and>
        recover_sig K (transfer_digest K from to val va vb nonce) sg \<noteq> Inr from \<longrightarrow>
      transferWithAuthorization_sig K e from to val va vb nonce sg st
        \<in> {Inl InvalidAuthorization, Inl ECDSAInvalidSignature, Inl ECDSAInvalidSignatureS,
            Inl ECDSAInvalidSignatureLength})
   \<and> (block_timestamp e < va \<or> vb < block_timestamp e \<or> authorizationState st from nonce \<longrightarrow>
      (\<forall>K' v' r' s' sg'.
         transferWithAuthorization K' e from to val va vb nonce v' r' s' st
           = transferWithAuthorization K e from to val va vb nonce v r s st \<and>
         transferWithAuthorization_sig K' e from to val va vb nonce sg' st
           = transferWithAuthorization_sig K e from to val va vb nonce sg st))"
proof -
  have r1: "block_timestamp e < va \<longrightarrow>
      transferWithAuthorization K e from to val va vb nonce v r s st = Inl AuthorizationNotYetValid \<and>
      transferWithAuthorization_sig K e from to val va vb nonce sg st = Inl AuthorizationNotYetValid"
    by (simp add: transferWithAuthorization_def transferWithAuthorization_sig_def
          requireValidAuthorization_def)
  have r2: "va \<le> block_timestamp e \<and> vb < block_timestamp e \<longrightarrow>
      transferWithAuthorization K e from to val va vb nonce v r s st = Inl AuthorizationExpired \<and>
      transferWithAuthorization_sig K e from to val va vb nonce sg st = Inl AuthorizationExpired"
    by (auto simp: transferWithAuthorization_def transferWithAuthorization_sig_def
          requireValidAuthorization_def)
  have r3: "va \<le> block_timestamp e \<and> block_timestamp e \<le> vb \<and> authorizationState st from nonce \<longrightarrow>
      transferWithAuthorization K e from to val va vb nonce v r s st = Inl AuthorizationAlreadyUsed \<and>
      transferWithAuthorization_sig K e from to val va vb nonce sg st = Inl AuthorizationAlreadyUsed"
    by (simp add: transferWithAuthorization_def transferWithAuthorization_sig_def
          requireValid_used_window authorizationState_def)
  have pass: "va \<le> block_timestamp e \<and> block_timestamp e \<le> vb \<and> \<not> authorizationState st from nonce
      \<Longrightarrow> requireValidAuthorization e from nonce va vb st = Inr ()"
    by (simp add: requireValid_Inr authorizationState_def)
  have r4: "va \<le> block_timestamp e \<and> block_timestamp e \<le> vb \<and> \<not> authorizationState st from nonce \<and>
        recover_vrs K (transfer_digest K from to val va vb nonce) v r s \<noteq> Inr from \<longrightarrow>
      transferWithAuthorization K e from to val va vb nonce v r s st
        \<in> {Inl InvalidAuthorization, Inl ECDSAInvalidSignature, Inl ECDSAInvalidSignatureS}"
    by (auto simp: transferWithAuthorization_def pass recover_vrs_def Let_def)
  have r5: "va \<le> block_timestamp e \<and> block_timestamp e \<le> vb \<and> \<not> authorizationState st from nonce \<and>
        recover_sig K (transfer_digest K from to val va vb nonce) sg \<noteq> Inr from \<longrightarrow>
      transferWithAuthorization_sig K e from to val va vb nonce sg st
        \<in> {Inl InvalidAuthorization, Inl ECDSAInvalidSignature, Inl ECDSAInvalidSignatureS,
            Inl ECDSAInvalidSignatureLength}"
    by (auto simp: transferWithAuthorization_sig_def pass recover_sig_def recover_vrs_def Let_def)
  have r6: "block_timestamp e < va \<or> vb < block_timestamp e \<or> authorizationState st from nonce \<longrightarrow>
      (\<forall>K' v' r' s' sg'.
         transferWithAuthorization K' e from to val va vb nonce v' r' s' st
           = transferWithAuthorization K e from to val va vb nonce v r s st \<and>
         transferWithAuthorization_sig K' e from to val va vb nonce sg' st
           = transferWithAuthorization_sig K e from to val va vb nonce sg st)"
    by (auto simp: transferWithAuthorization_def transferWithAuthorization_sig_def
          requireValidAuthorization_def requireUnusedAuthorization_def authorizationState_def)
  from r1 r2 r3 r4 r5 r6 show ?thesis by blast
qed

lemma sample_chain_used_state: "authorizationState sample_chain_used 1 0"
  by (simp add: sample_chain_used_def transact_def transferWithAuthorization_def
        requireValidAuthorization_def requireUnusedAuthorization_def recover_vrs_def
        secp256k1_half_order_def transfer_internal_def erc20_transfer_def erc20_update_def
        executeAuthorization_def emit_def authorizationState_def sample_crypto_def
        sample_env_def sample_chain_def)

theorem verification_rules_in_order_witness:
  "block_timestamp (sample_env 5 3) < (5 :: uint256) \<and>
   transferWithAuthorization sample_crypto (sample_env 5 3) 1 2 10 5 20 0 27 1 1 sample_chain_used
     = Inl AuthorizationNotYetValid \<and>
   (0 :: uint256) \<le> block_timestamp (sample_env 5 30) \<and>
   (20 :: uint256) < block_timestamp (sample_env 5 30) \<and>
   authorizationState sample_chain_used 1 0 \<and>
   transferWithAuthorization sample_crypto (sample_env 5 30) 1 2 10 0 20 0 27 1 1 sample_chain_used
     = Inl AuthorizationExpired \<and>
   block_timestamp (sample_env 5 12) \<le> (20 :: uint256) \<and>
   transferWithAuthorization sample_crypto (sample_env 5 12) 1 2 10 0 20 0 27 1 1 sample_chain_used
     = Inl AuthorizationAlreadyUsed \<and>
   \<not> authorizationState sample_chain 1 0 \<and>
   recover_vrs sample_crypto (transfer_digest sample_crypto 1 2 10 0 20 0) 27 3 1 \<noteq> Inr 1 \<and>
   transferWithAuthorization sample_crypto (sample_env 5 12) 1 2 10 0 20 0 27 3 1 sample_chain
     \<in> {Inl InvalidAuthorization, Inl ECDSAInvalidSignature, Inl ECDSAInvalidSignatureS} \<and>
   transferWithAuthorization sample_crypto (sample_env 5 30) 1 2 10 0 20 0 28 3 4 sample_chain_used
     = transferWithAuthorization sample_crypto (sample_env 5 30) 1 2 10 0 20 0 27 1 1 sample_chain_used"
proof -
  have t: "block_timestamp (sample_env 5 3) < (5 :: uint256)"
      "(0 :: uint256) \<le> block_timestamp (sample_env 5 30)"
      "(20 :: uint256) < block_timestamp (sample_env 5 30)"
      "(0 :: uint256) \<le> block_timestamp (sample_env 5 12)"
      "block_timestamp (sample_env 5 12) \<le> (20 :: uint256)"
    by (simp_all add: sample_env_def)
  have u: "\<not> authorizationState sample_chain 1 0"
    by (simp add: authorizationState_def sample_chain_def)
  have g: "recover_vrs sample_crypto (transfer_digest sample_crypto 1 2 10 0 20 0) 27 3 1 \<noteq> Inr 1"
    by (simp add: recover_vrs_def secp256k1_half_order_def sample_crypto_def)
  have a: "transferWithAuthorization sample_crypto (sample_env 5 3) 1 2 10 5 20 0 27 1 1
      sample_chain_used = Inl AuthorizationNotYetValid"
    using t(1) verification_rules_in_order
        [of "sample_env 5 3" 5 sample_crypto 1 2 10 20 0 27 1 1 sample_chain_used]
    by blast
  have b: "transferWithAuthorization sample_crypto (sample_env 5 30) 1 2 10 0 20 0 27 1 1
      sample_chain_used = Inl AuthorizationExpired"
    using t(2,3) verification_rules_in_order
        [of "sample_env 5 30" 0 sample_crypto 1 2 10 20 0 27 1 1 sample_chain_used]
    by blast
  have c: "transferWithAuthorization sample_crypto (sample_env 5 12) 1 2 10 0 20 0 27 1 1
      sample_chain_used = Inl AuthorizationAlreadyUsed"
    using t(4,5) sample_chain_used_state verification_rules_in_order
        [of "sample_env 5 12" 0 sample_crypto 1 2 10 20 0 27 1 1 sample_chain_used]
    by blast
  have d: "transferWithAuthorization sample_crypto (sample_env 5 12) 1 2 10 0 20 0 27 3 1 sample_chain
     \<in> {Inl InvalidAuthorization, Inl ECDSAInvalidSignature, Inl ECDSAInvalidSignatureS}"
    using t(4,5) u g verification_rules_in_order
        [of "sample_env 5 12" 0 sample_crypto 1 2 10 20 0 27 3 1 sample_chain]
    by blast
  have f: "transferWithAuthorization sample_crypto (sample_env 5 30) 1 2 10 0 20 0 28 3 4
      sample_chain_used
     = transferWithAuthorization sample_crypto (sample_env 5 30) 1 2 10 0 20 0 27 1 1
      sample_chain_used"
    using t(3) verification_rules_in_order
        [of "sample_env 5 30" 0 sample_crypto 1 2 10 20 0 27 1 1 sample_chain_used]
    by blast
  from t u g sample_chain_used_state a b c d f show ?thesis by simp
qed

section \<open>Cancelling an authorization\<close>

text \<open>
  Claim C8: for every unused (authorizer, nonce) with a valid cancellation signature,
  cancelAuthorization marks the nonce canceled and transfers no value. The only change
  to the state is the registry entry of that one (authorizer, nonce), besides the logged
  event: every wrapped and every underlying balance, the supplies and the allowances are
  exactly as before, and every other registry entry keeps its value.
\<close>

theorem cancelAuthorization_frame:
  assumes "\<not> authorizationState st a n"
    and "recover_vrs K (cancel_digest K a n) v r s = Inr a"
  shows "\<exists>st'. cancelAuthorization K a n v r s st = Inr st' \<and>
           st' = st\<lparr>authorizationStates := (authorizationStates st)
                       (a := (authorizationStates st a)(n := True)),
                    events := events st @ [AuthorizationCanceled a n]\<rparr> \<and>
           authorizationState st' a n \<and>
           (\<forall>a' n'. (a', n') \<noteq> (a, n) \<longrightarrow>
              authorizationState st' a' n' = authorizationState st a' n') \<and>
           wrapped st' = wrapped st \<and> underlying st' = underlying st \<and>
           (\<forall>x. balanceOf st' x = balanceOf st x) \<and>
           (\<forall>x. balances (underlying st') x = balances (underlying st) x) \<and>
           status st' = status st \<and> calls st' = calls st"
  using assms
  by (auto simp: cancelAuthorization_Inr authorizationState_def balanceOf_def)

theorem cancelAuthorization_frame_witness:
  "\<not> authorizationState sample_chain 1 0 \<and>
   recover_vrs sample_crypto (cancel_digest sample_crypto 1 0) 27 1 1 = Inr 1 \<and>
   (\<exists>st'. cancelAuthorization sample_crypto 1 0 27 1 1 sample_chain = Inr st' \<and>
      authorizationState st' 1 0 \<and> wrapped st' = wrapped sample_chain \<and>
      underlying st' = underlying sample_chain)"
proof -
  have u: "\<not> authorizationState sample_chain 1 0"
    by (simp add: authorizationState_def sample_chain_def)
  have g: "recover_vrs sample_crypto (cancel_digest sample_crypto 1 0) 27 1 1 = Inr 1"
    by (simp add: recover_vrs_def secp256k1_half_order_def sample_crypto_def)
  show ?thesis
    using u g cancelAuthorization_frame [OF u g] by blast
qed

section \<open>The two signature encodings\<close>

text \<open>
  Claim C9: the two signature encodings are equivalent. For every authorization and every
  65-byte signature, which decomposes into r (bytes 0 to 31), s (bytes 32 to 63) and v
  (byte 64), the packed-bytes overload of transferWithAuthorization and the structured
  overload on (v, r, s) give the same result: the same error or the same resulting
  state. Either overload succeeds only if the signer recovered from the canonical
  EIP-712 digest of the authorization equals \<open>from\<close>.
\<close>

theorem signature_encodings_agree:
  "(length sg = 65 \<longrightarrow>
      transferWithAuthorization_sig K e from to val va vb nonce sg st
        = transferWithAuthorization K e from to val va vb nonce (sig_v sg) (sig_r sg) (sig_s sg) st)
   \<and> (transferWithAuthorization K e from to val va vb nonce v r s st = Inr st' \<longrightarrow>
        recover_vrs K (transfer_digest K from to val va vb nonce) v r s = Inr from)
   \<and> (transferWithAuthorization_sig K e from to val va vb nonce sg st = Inr st'' \<longrightarrow>
        length sg = 65 \<and>
        recover_vrs K (transfer_digest K from to val va vb nonce) (sig_v sg) (sig_r sg) (sig_s sg)
          = Inr from)"
  by (auto simp: transferWithAuthorization_def transferWithAuthorization_sig_def recover_sig_def
        then_do_eq_Inr split: if_splits)

theorem signature_encodings_agree_witness:
  "length sample_signature = 65 \<and>
   transferWithAuthorization_sig sample_crypto (sample_env 5 10) 1 2 10 0 20 0 sample_signature
       sample_chain
     = transferWithAuthorization sample_crypto (sample_env 5 10) 1 2 10 0 20 0 27 1 1 sample_chain \<and>
   (\<exists>st. transferWithAuthorization_sig sample_crypto (sample_env 5 10) 1 2 10 0 20 0
       sample_signature sample_chain = Inr st) \<and>
   recover_vrs sample_crypto (transfer_digest sample_crypto 1 2 10 0 20 0) 27 1 1 = Inr 1"
proof -
  have ok: "\<exists>st. transferWithAuthorization_sig sample_crypto (sample_env 5 10) 1 2 10 0 20 0
      sample_signature sample_chain = Inr st"
    by (simp add: sample_signature_parts transferWithAuthorization_sig_def recover_sig_def
        requireValidAuthorization_def requireUnusedAuthorization_def recover_vrs_def
        secp256k1_half_order_def transfer_internal_def erc20_transfer_def erc20_update_def
        executeAuthorization_def emit_def sample_crypto_def sample_env_def sample_chain_def)
  then obtain st where st: "transferWithAuthorization_sig sample_crypto (sample_env 5 10)
      1 2 10 0 20 0 sample_signature sample_chain = Inr st"
    by blast
  have agree: "transferWithAuthorization_sig sample_crypto (sample_env 5 10) 1 2 10 0 20 0
      sample_signature sample_chain
     = transferWithAuthorization sample_crypto (sample_env 5 10) 1 2 10 0 20 0 27 1 1 sample_chain"
    using sample_signature_parts
      signature_encodings_agree [of sample_signature sample_crypto "sample_env 5 10" 1 2 10 0 20 0
        sample_chain]
    by simp
  have signer: "recover_vrs sample_crypto (transfer_digest sample_crypto 1 2 10 0 20 0) 27 1 1 = Inr 1"
    using st sample_signature_parts
      signature_encodings_agree [of sample_signature sample_crypto "sample_env 5 10" 1 2 10 0 20 0
        sample_chain _ _ _ _ st]
    by simp
  from sample_signature_parts(1) agree ok signer show ?thesis by blast
qed

section \<open>What the registry query shows\<close>

text \<open>
  Claim C10: the registry cannot distinguish used from canceled. It stores one boolean
  per authorizer and nonce; after a successful cancelAuthorization the query
  authorizationState(authorizer, nonce) returns true, exactly the value it returns after
  a successful transferWithAuthorization.
\<close>

theorem canceled_looks_like_used:
  "(cancelAuthorization K a n v r s st = Inr st1 \<longrightarrow> authorizationState st1 a n = True)
   \<and> (transferWithAuthorization K e a to val va vb n v' r' s' st = Inr st2 \<longrightarrow>
        authorizationState st2 a n = True)
   \<and> (cancelAuthorization K a n v r s st = Inr st1 \<and>
      transferWithAuthorization K e a to val va vb n v' r' s' st = Inr st2 \<longrightarrow>
        authorizationState st1 a n = authorizationState st2 a n)"
  by (auto simp: cancelAuthorization_Inr transferWithAuthorization_Inr transfer_after_execute
        authorizationState_def)

theorem canceled_looks_like_used_witness:
  "(\<exists>st1 st2.
      cancelAuthorization sample_crypto 1 0 27 1 1 sample_chain = Inr st1 \<and>
      transferWithAuthorization sample_crypto (sample_env 5 10) 1 2 10 0 20 0 27 1 1 sample_chain
        = Inr st2 \<and>
      authorizationState st1 1 0 = True \<and> authorizationState st2 1 0 = True \<and>
      authorizationState st1 1 0 = authorizationState st2 1 0)"
proof -
  have "\<exists>st1. cancelAuthorization sample_crypto 1 0 27 1 1 sample_chain = Inr st1"
    by (simp add: cancelAuthorization_def requireUnusedAuthorization_def recover_vrs_def
          secp256k1_half_order_def sample_crypto_def sample_chain_def)
  then obtain st1 where c: "cancelAuthorization sample_crypto 1 0 27 1 1 sample_chain = Inr st1"
    by blast
  have "\<exists>st2. transferWithAuthorization sample_crypto (sample_env 5 10) 1 2 10 0 20 0 27 1 1
      sample_chain = Inr st2"
    by (simp add: transferWithAuthorization_def requireValidAuthorization_def
        requireUnusedAuthorization_def recover_vrs_def secp256k1_half_order_def
        transfer_internal_def erc20_transfer_def erc20_update_def executeAuthorization_def
        emit_def sample_crypto_def sample_env_def sample_chain_def)
  then obtain st2 where t: "transferWithAuthorization sample_crypto (sample_env 5 10)
      1 2 10 0 20 0 27 1 1 sample_chain = Inr st2"
    by blast
  show ?thesis
    using c t
      canceled_looks_like_used [of sample_crypto 1 0 27 1 1 sample_chain st1
        "sample_env 5 10" 2 10 0 20 27 1 1 st2]
    by blast
qed

section \<open>Deposit and redeem\<close>

lemma word_add_no_wrap_le: "a \<le> a + x \<Longrightarrow> x \<le> a + (x :: 'a::len word)"
  by unat_arith

lemma word_bounded_add:
  "unat (b :: 'a::len word) \<le> unat t \<Longrightarrow> unat t + unat x < 2 ^ LENGTH('a) \<Longrightarrow>
   unat (b + x) = unat b + unat x"
  by (simp add: unat_add_lem [THEN iffD1])

lemma word_sub_add_unat: "x \<le> (b :: 'a::len word) \<Longrightarrow> unat (b - x) + unat x = unat b"
  by unat_arith

lemma erc20_spendAllowance_keeps:
  "erc20_spendAllowance ow sp v t = Inr t' \<Longrightarrow>
   balances t' = balances t \<and> totalSupply t' = totalSupply t"
  by (auto simp: erc20_spendAllowance_def Let_def split: if_splits)

lemma erc20_transferFrom_InrD:
  assumes "erc20_transferFrom sp src dst v t = Inr u"
  shows "src \<noteq> 0 \<and> dst \<noteq> 0 \<and> v \<le> balances t src \<and>
     balances u = ((balances t)(src := balances t src - v))
                    (dst := ((balances t)(src := balances t src - v)) dst + v) \<and>
     totalSupply u = totalSupply t"
proof -
  from assms obtain t1 where a: "erc20_spendAllowance src sp v t = Inr t1"
    and b: "erc20_transfer src dst v t1 = Inr u"
    by (auto simp: erc20_transferFrom_def then_do_eq_Inr)
  from a have "balances t1 = balances t" "totalSupply t1 = totalSupply t"
    by (simp_all add: erc20_spendAllowance_keeps)
  with b show ?thesis by (auto simp: erc20_transfer_Inr)
qed

lemma erc20_mint_Inr:
  "erc20_mint a v t = Inr w \<longleftrightarrow>
     a \<noteq> 0 \<and> unat (totalSupply t) + unat v < 2 ^ 256 \<and>
     w = t\<lparr>balances := (balances t)(a := balances t a + v), totalSupply := totalSupply t + v\<rparr>"
  by (auto simp: erc20_mint_def erc20_update_def)

lemma erc20_burn_Inr:
  "erc20_burn a v t = Inr w \<longleftrightarrow>
     a \<noteq> 0 \<and> v \<le> balances t a \<and>
     w = t\<lparr>balances := (balances t)(a := balances t a - v), totalSupply := totalSupply t - v\<rparr>"
  by (auto simp: erc20_burn_def erc20_update_def not_less)


lemma erc20_spendAllowance_ok:
  "allowances t ow sp = - 1 \<or> v \<le> allowances t ow sp \<Longrightarrow>
   \<exists>t'. erc20_spendAllowance ow sp v t = Inr t' \<and> balances t' = balances t \<and>
        totalSupply t' = totalSupply t"
  by (auto simp: erc20_spendAllowance_def Let_def not_less)

lemma deposit_goes_through:
  assumes "status st \<noteq> ENTERED" and "x \<noteq> 0"
    and "msg_sender e \<noteq> 0" and "address_this e \<noteq> 0" and "msg_sender e \<noteq> address_this e"
    and "x \<le> balances (underlying st) (msg_sender e)"
    and "allowances (underlying st) (msg_sender e) (address_this e) = - 1 \<or>
         x \<le> allowances (underlying st) (msg_sender e) (address_this e)"
    and "unat (balances (underlying st) (address_this e)) + unat x < 2 ^ 256"
    and "unat (totalSupply (wrapped st)) + unat x < 2 ^ 256"
  shows "\<exists>st1. deposit e x st = Inr st1"
proof -
  let ?c = "msg_sender e" and ?me = "address_this e"
  from erc20_spendAllowance_ok [OF assms(7)] obtain t1 where
      sp: "erc20_spendAllowance ?c ?me x (underlying st) = Inr t1"
    and t1: "balances t1 = balances (underlying st)"
    by blast
  define u where "u = t1\<lparr>balances := ((balances t1)(?c := balances t1 ?c - x))
      (?me := ((balances t1)(?c := balances t1 ?c - x)) ?me + x)\<rparr>"
  have tr: "erc20_transfer ?c ?me x t1 = Inr u"
    using assms(3,4,6) by (simp add: erc20_transfer_Inr u_def t1)
  have tf: "erc20_transferFrom ?me ?c ?me x (underlying st) = Inr u"
    by (simp add: erc20_transferFrom_def sp tr)
  have u_me: "balances u ?me = balances (underlying st) ?me + x"
    using assms(5) by (simp add: u_def t1)
  have "unat (balances (underlying st) ?me + x) = unat (balances (underlying st) ?me) + unat x"
    using assms(8) by (simp add: unat_add_lem [THEN iffD1])
  then have grow: "balances (underlying st) ?me \<le> balances u ?me"
    by (simp add: u_me word_le_nat_alt)
  have recv: "balances u ?me - balances (underlying st) ?me = x"
    by (simp add: u_me)
  have mint: "\<exists>w. erc20_mint ?c x (wrapped st) = Inr w"
    using assms(3,9) by (simp add: erc20_mint_Inr)
  from assms(1,2) tf grow recv mint show ?thesis
    by (auto simp: deposit_Inr)
qed

lemma round_trip_after_deposit:
  assumes dep: "deposit e x st = Inr st1"
    and inv: "balanceOf st (msg_sender e) \<le> totalSupply (wrapped st)"
  shows "unat (balances (underlying st1) (msg_sender e)) + unat x
           = unat (balances (underlying st) (msg_sender e))
       \<and> unat (balanceOf st1 (msg_sender e)) = unat (balanceOf st (msg_sender e)) + unat x
       \<and> (\<exists>st2. redeem e x st1 = Inr st2 \<and>
            balanceOf st2 (msg_sender e) = balanceOf st (msg_sender e) \<and>
            balances (underlying st2) (msg_sender e) = balances (underlying st) (msg_sender e) \<and>
            unat (balances (underlying st2) (msg_sender e))
              = unat (balances (underlying st1) (msg_sender e)) + unat x \<and>
            unat (balanceOf st2 (msg_sender e)) + unat x = unat (balanceOf st1 (msg_sender e)) \<and>
            getReserves e st2 = getReserves e st \<and>
            totalSupply (wrapped st2) = totalSupply (wrapped st))"
proof -
  let ?c = "msg_sender e" and ?me = "address_this e"
  let ?ub = "balances (underlying st)" and ?wb = "balances (wrapped st)"
  from dep obtain u w where
      tf: "erc20_transferFrom ?me ?c ?me x (underlying st) = Inr u"
    and grow: "?ub ?me \<le> balances u ?me"
    and recv: "balances u ?me - ?ub ?me = x"
    and mint: "erc20_mint ?c x (wrapped st) = Inr w"
    and x0: "x \<noteq> 0"
    and st1: "st1 = st\<lparr>wrapped := w, status := NOT_ENTERED, underlying := u,
                 events := events st @ [Transfer 0 ?c x, Deposit ?c x],
                 calls := calls st @
                   [(BalanceOfCall ?me, ENTERED, wrapped st),
                    (TransferFromCall ?c ?me x, ENTERED, wrapped st),
                    (BalanceOfCall ?me, ENTERED, wrapped st)]\<rparr>"
    by (auto simp: deposit_Inr)
  from erc20_transferFrom_InrD [OF tf]
  have c0: "?c \<noteq> 0" and this0: "?me \<noteq> 0" and have_x: "x \<le> ?ub ?c"
    and ub: "balances u = (?ub(?c := ?ub ?c - x))(?me := (?ub(?c := ?ub ?c - x)) ?me + x)"
    by simp_all
  have distinct: "?c \<noteq> ?me"
  proof
    assume "?c = ?me"
    with ub have "balances u ?me = ?ub ?me" by simp
    with recv x0 show False by simp
  qed
  from ub distinct have u_c: "balances u ?c = ?ub ?c - x"
    and u_this: "balances u ?me = ?ub ?me + x"
    by simp_all
  from mint have room: "unat (totalSupply (wrapped st)) + unat x < 2 ^ 256"
    and w: "w = (wrapped st)\<lparr>balances := ?wb(?c := ?wb ?c + x),
                totalSupply := totalSupply (wrapped st) + x\<rparr>"
    by (simp_all add: erc20_mint_Inr)
  from inv have "unat (?wb ?c) \<le> unat (totalSupply (wrapped st))"
    by (simp add: balanceOf_def word_le_nat_alt)
  with room have credit: "unat (?wb ?c + x) = unat (?wb ?c) + unat x"
    by (intro word_bounded_add) simp_all
  then have covered: "x \<le> ?wb ?c + x"
    by (simp add: word_le_nat_alt)
  have debit: "unat (?ub ?c - x) + unat x = unat (?ub ?c)"
    using have_x by (rule word_sub_add_unat)
  from grow u_this have reserve: "x \<le> balances u ?me"
    by (simp add: word_add_no_wrap_le)
  define w2 where "w2 = w\<lparr>balances := (balances w)(?c := balances w ?c - x),
      totalSupply := totalSupply w - x\<rparr>"
  define u2 where "u2 = u\<lparr>balances := ((balances u)(?me := balances u ?me - x))
      (?c := ((balances u)(?me := balances u ?me - x)) ?c + x)\<rparr>"
  define st2 where "st2 = st1\<lparr>wrapped := w2, status := NOT_ENTERED, underlying := u2,
      events := events st1 @ [Transfer ?c 0 x, Redeem ?c x],
      calls := calls st1 @ [(TransferCall ?c x, ENTERED, w2)]\<rparr>"
  have burn: "erc20_burn ?c x (wrapped st1) = Inr w2"
    using c0 covered by (simp add: erc20_burn_Inr st1 w w2_def)
  have release: "erc20_transfer ?me ?c x (underlying st1) = Inr u2"
    using c0 this0 reserve by (simp add: erc20_transfer_Inr st1 u2_def)
  have red: "redeem e x st1 = Inr st2"
    unfolding redeem_Inr
    using x0 covered burn release
    by (auto simp: st1 st2_def balanceOf_def w)
  have r1: "balanceOf st2 ?c = balanceOf st ?c"
    by (simp add: st2_def w2_def w balanceOf_def)
  have r2: "balances (underlying st2) ?c = ?ub ?c"
    using distinct by (simp add: st2_def u2_def u_c)
  have r3: "getReserves e st2 = getReserves e st"
    using distinct by (simp add: getReserves_def st2_def u2_def u_this)
  have r4: "totalSupply (wrapped st2) = totalSupply (wrapped st)"
    by (simp add: st2_def w2_def w)
  have d1: "unat (balances (underlying st1) ?c) + unat x = unat (?ub ?c)"
    using debit by (simp add: st1 u_c)
  have d2: "unat (balanceOf st1 ?c) = unat (balanceOf st ?c) + unat x"
    using credit by (simp add: st1 w balanceOf_def)
  from red r1 r2 r3 r4 d1 d2 show ?thesis by auto
qed


text \<open>
  The wrapped token keeps its supply invariant through every transaction, so in every
  state reached from a consistent one (a freshly initialized token is consistent) each
  balance is within the total supply.
\<close>

lemma sum_fun_upd_nat:
  fixes f :: "'a::finite \<Rightarrow> nat"
  shows "(\<Sum>a\<in>UNIV. (f(x := v)) a) + f x = (\<Sum>a\<in>UNIV. f a) + v"
proof -
  have "(\<Sum>a\<in>UNIV. (f(x := v)) a) = v + (\<Sum>a\<in>UNIV - {x}. (f(x := v)) a)"
    by (subst sum.remove [of UNIV x]) simp_all
  moreover have "(\<Sum>a\<in>UNIV - {x}. (f(x := v)) a) = (\<Sum>a\<in>UNIV - {x}. f a)"
    by (rule sum.cong) simp_all
  moreover have "(\<Sum>a\<in>UNIV. f a) = f x + (\<Sum>a\<in>UNIV - {x}. f a)"
    by (subst sum.remove [of UNIV x]) simp_all
  ultimately show ?thesis by simp
qed

lemma sum_balances_upd:
  fixes b :: "address \<Rightarrow> uint256"
  shows "(\<Sum>a\<in>UNIV. unat ((b(x := w)) a)) + unat (b x) = (\<Sum>a\<in>UNIV. unat (b a)) + unat w"
proof -
  have "(\<lambda>a. unat ((b(x := w)) a)) = (\<lambda>a. unat (b a))(x := unat w)"
    by (rule ext) simp
  then show ?thesis
    using sum_fun_upd_nat [of "\<lambda>a. unat (b a)" x "unat w"] by (simp only:)
qed

lemma supply_consistent_le:
  assumes "supply_consistent t"
  shows "balances t a \<le> totalSupply t"
proof -
  have "unat (balances t a) \<le> (\<Sum>a\<in>UNIV. unat (balances t a))"
    by (rule member_le_sum) simp_all
  with assms show ?thesis by (simp add: supply_consistent_def word_le_nat_alt)
qed

lemma sum_debit:
  fixes b :: "address \<Rightarrow> uint256"
  assumes "v \<le> b x"
  shows "(\<Sum>a\<in>UNIV. unat ((b(x := b x - v)) a)) + unat v = (\<Sum>a\<in>UNIV. unat (b a))"
proof -
  have "unat (b x - v) + unat v = unat (b x)"
    using assms by unat_arith
  with sum_balances_upd [of b x "b x - v"] show ?thesis by linarith
qed

lemma sum_credit:
  fixes b :: "address \<Rightarrow> uint256"
  assumes "(\<Sum>a\<in>UNIV. unat (b a)) + unat v < 2 ^ 256"
  shows "(\<Sum>a\<in>UNIV. unat ((b(x := b x + v)) a)) = (\<Sum>a\<in>UNIV. unat (b a)) + unat v"
proof -
  have "unat (b x) \<le> (\<Sum>a\<in>UNIV. unat (b a))"
    by (rule member_le_sum) simp_all
  with assms have "unat (b x) + unat v < 2 ^ 256" by simp
  then have "unat (b x + v) = unat (b x) + unat v"
    by (simp add: unat_add_lem [THEN iffD1])
  with sum_balances_upd [of b x "b x + v"] show ?thesis by linarith
qed

lemma erc20_transfer_consistent:
  assumes "erc20_transfer src dst v t = Inr t'" and "supply_consistent t"
  shows "supply_consistent t'"
proof -
  let ?b1 = "(balances t)(src := balances t src - v)"
  from assms(1) have le: "v \<le> balances t src"
    and t': "t' = t\<lparr>balances := ?b1(dst := ?b1 dst + v)\<rparr>"
    by (simp_all add: erc20_transfer_Inr)
  have s1: "(\<Sum>a\<in>UNIV. unat (?b1 a)) + unat v = unat (totalSupply t)"
    using sum_debit [of v "balances t" src] le assms(2) by (simp add: supply_consistent_def)
  have "unat (totalSupply t) < 2 ^ 256"
    using unsigned_less [of "totalSupply t", where ?'a = nat] by simp
  with s1 have "(\<Sum>a\<in>UNIV. unat (?b1 a)) + unat v < 2 ^ 256" by simp
  from sum_credit [of ?b1 v dst] this s1 show ?thesis
    by (simp add: supply_consistent_def t')
qed

lemma erc20_mint_consistent:
  assumes "erc20_mint a v t = Inr t'" and "supply_consistent t"
  shows "supply_consistent t'"
proof -
  from assms(1) have room: "unat (totalSupply t) + unat v < 2 ^ 256"
    and t': "t' = t\<lparr>balances := (balances t)(a := balances t a + v),
        totalSupply := totalSupply t + v\<rparr>"
    by (simp_all add: erc20_mint_Inr)
  from room assms(2) have "(\<Sum>a\<in>UNIV. unat (balances t a)) + unat v < 2 ^ 256"
    by (simp add: supply_consistent_def)
  from sum_credit [of "balances t" v a] this room assms(2) show ?thesis
    by (simp add: supply_consistent_def t' unat_add_lem [THEN iffD1])
qed

lemma erc20_burn_consistent:
  assumes "erc20_burn a v t = Inr t'" and "supply_consistent t"
  shows "supply_consistent t'"
proof -
  from assms(1) have le: "v \<le> balances t a"
    and t': "t' = t\<lparr>balances := (balances t)(a := balances t a - v),
        totalSupply := totalSupply t - v\<rparr>"
    by (simp_all add: erc20_burn_Inr)
  from le supply_consistent_le [OF assms(2), of a] have "v \<le> totalSupply t" by simp
  then have "unat (totalSupply t - v) + unat v = unat (totalSupply t)"
    by unat_arith
  with sum_debit [of v "balances t" a] le assms(2) show ?thesis
    by (simp add: supply_consistent_def t')
qed


lemma transfer_after_execute_consistent:
  assumes "transfer_internal src dst val (executeAuthorization src dst val nonce st) = Inr st'"
    and "supply_consistent (wrapped st)"
  shows "supply_consistent (wrapped st')"
proof -
  from assms(1) obtain t where "erc20_transfer src dst val (wrapped st) = Inr t" "wrapped st' = t"
    by (auto simp: transfer_internal_def then_do_eq_Inr executeAuthorization_def emit_def)
  with assms(2) show ?thesis by (auto intro: erc20_transfer_consistent)
qed

lemma dispatch_consistent:
  assumes "dispatch K e c st = Inr st'" and "supply_consistent (wrapped st)"
  shows "supply_consistent (wrapped st')"
proof (cases c)
  case (CallDeposit x)
  with assms obtain w where "erc20_mint (msg_sender e) x (wrapped st) = Inr w" "wrapped st' = w"
    by (auto simp: deposit_Inr)
  with assms(2) show ?thesis by (auto intro: erc20_mint_consistent)
next
  case (CallRedeem x)
  with assms obtain w where "erc20_burn (msg_sender e) x (wrapped st) = Inr w" "wrapped st' = w"
    by (auto simp: redeem_Inr)
  with assms(2) show ?thesis by (auto intro: erc20_burn_consistent)
next
  case (CallTransferWithAuthorization src dst val va vb nonce v r s)
  with assms show ?thesis
    by (auto simp: transferWithAuthorization_Inr intro: transfer_after_execute_consistent)
next
  case (CallTransferWithAuthorizationSig src dst val va vb nonce sg)
  with assms show ?thesis
    by (auto simp: transferWithAuthorization_sig_Inr intro: transfer_after_execute_consistent)
next
  case (CallReceiveWithAuthorization src dst val va vb nonce v r s)
  with assms show ?thesis
    by (auto simp: receiveWithAuthorization_Inr intro: transfer_after_execute_consistent)
next
  case (CallReceiveWithAuthorizationSig src dst val va vb nonce sg)
  with assms show ?thesis
    by (auto simp: receiveWithAuthorization_sig_Inr intro: transfer_after_execute_consistent)
next
  case (CallCancelAuthorization authorizer nonce v r s)
  with assms show ?thesis by (auto simp: cancelAuthorization_Inr)
qed

lemma transact_consistent:
  "supply_consistent (wrapped st) \<Longrightarrow> supply_consistent (wrapped (transact K tx st))"
  by (cases "dispatch K (fst tx) (snd tx) st")
    (auto simp: transact_def dest: dispatch_consistent)

lemma transact_all_consistent:
  "supply_consistent (wrapped st) \<Longrightarrow> supply_consistent (wrapped (transact_all K txs st))"
  by (induction txs arbitrary: st) (auto intro: transact_consistent)

lemma sample_consistent: "supply_consistent (wrapped sample_chain)"
proof -
  have "(\<Sum>a\<in>(UNIV :: address set). unat (if a = 1 then 40 else (0 :: uint256)))
      = (\<Sum>a\<in>(UNIV :: address set). if a = 1 then 40 else 0)"
    by (rule sum.cong) simp_all
  then show ?thesis
    by (simp add: supply_consistent_def sample_chain_def)
qed

lemma fresh_token_consistent:
  "supply_consistent \<lparr>balances = (\<lambda>a. 0), allowances = al, totalSupply = 0\<rparr>"
  by (simp add: supply_consistent_def)

lemma transact_all_balance_within_supply:
  assumes "supply_consistent (wrapped st)"
  shows "balanceOf (transact_all K txs st) a \<le> totalSupply (wrapped (transact_all K txs st))"
  using supply_consistent_le [OF transact_all_consistent [OF assms]]
  by (simp add: balanceOf_def)

text \<open>
  Claim C5: deposit(x) followed by redeem(x) returns the caller to the original
  external-token balance with no fee. In a state where the caller's wrapped balance is
  within the total supply, for every caller and every nonzero amount x that the caller
  holds in the external token and has approved to the contract, deposit(x) goes through
  (the guard being clear and neither the reserves nor the supply overflowing). Whenever
  deposit(x) goes through, it debits exactly x from the caller's external balance and
  credits exactly x to the caller's wrapped balance; redeem(x) then goes through as well,
  burns exactly x wrapped and releases exactly x external, so that the caller's external
  and wrapped balances, the contract's reserves and the total supply are what they were
  before the deposit.
\<close>

theorem deposit_redeem_round_trip:
  assumes "balanceOf st (msg_sender e) \<le> totalSupply (wrapped st)"
  shows "(status st \<noteq> ENTERED \<and> x \<noteq> 0 \<and>
          msg_sender e \<noteq> 0 \<and> address_this e \<noteq> 0 \<and> msg_sender e \<noteq> address_this e \<and>
          x \<le> balances (underlying st) (msg_sender e) \<and>
          (allowances (underlying st) (msg_sender e) (address_this e) = - 1 \<or>
           x \<le> allowances (underlying st) (msg_sender e) (address_this e)) \<and>
          unat (balances (underlying st) (address_this e)) + unat x < 2 ^ 256 \<and>
          unat (totalSupply (wrapped st)) + unat x < 2 ^ 256
          \<longrightarrow> (\<exists>st1. deposit e x st = Inr st1))
       \<and> (deposit e x st = Inr st1 \<longrightarrow>
            unat (balances (underlying st1) (msg_sender e)) + unat x
              = unat (balances (underlying st) (msg_sender e)) \<and>
            unat (balanceOf st1 (msg_sender e)) = unat (balanceOf st (msg_sender e)) + unat x \<and>
            (\<exists>st2. redeem e x st1 = Inr st2 \<and>
               balanceOf st2 (msg_sender e) = balanceOf st (msg_sender e) \<and>
               balances (underlying st2) (msg_sender e) = balances (underlying st) (msg_sender e) \<and>
               unat (balances (underlying st2) (msg_sender e))
                 = unat (balances (underlying st1) (msg_sender e)) + unat x \<and>
               unat (balanceOf st2 (msg_sender e)) + unat x = unat (balanceOf st1 (msg_sender e)) \<and>
               getReserves e st2 = getReserves e st \<and>
               totalSupply (wrapped st2) = totalSupply (wrapped st)))"
  using deposit_goes_through [of st x e] round_trip_after_deposit [OF _ assms, of x st1]
  by blast

theorem deposit_redeem_round_trip_witness:
  "balanceOf sample_chain (msg_sender (sample_env 1 7)) \<le> totalSupply (wrapped sample_chain) \<and>
   (\<exists>st1 st2. deposit (sample_env 1 7) 5 sample_chain = Inr st1 \<and>
      redeem (sample_env 1 7) 5 st1 = Inr st2 \<and>
      unat (balances (underlying st1) 1) + 5 = 100 \<and>
      balances (underlying st2) 1 = 100)"
proof -
  have inv: "balanceOf sample_chain (msg_sender (sample_env 1 7)) \<le> totalSupply (wrapped sample_chain)"
    by (simp add: balanceOf_def sample_chain_def sample_env_def)
  have pre: "status sample_chain \<noteq> ENTERED \<and> (5 :: uint256) \<noteq> 0 \<and>
          msg_sender (sample_env 1 7) \<noteq> 0 \<and> address_this (sample_env 1 7) \<noteq> 0 \<and>
          msg_sender (sample_env 1 7) \<noteq> address_this (sample_env 1 7) \<and>
          5 \<le> balances (underlying sample_chain) (msg_sender (sample_env 1 7)) \<and>
          (allowances (underlying sample_chain) (msg_sender (sample_env 1 7))
             (address_this (sample_env 1 7)) = - 1 \<or>
           5 \<le> allowances (underlying sample_chain) (msg_sender (sample_env 1 7))
             (address_this (sample_env 1 7))) \<and>
          unat (balances (underlying sample_chain) (address_this (sample_env 1 7)))
            + unat (5 :: uint256) < 2 ^ 256 \<and>
          unat (totalSupply (wrapped sample_chain)) + unat (5 :: uint256) < 2 ^ 256"
    by (simp add: sample_chain_def sample_env_def)
  from pre deposit_redeem_round_trip [OF inv, of 5]
  obtain st1 where dep: "deposit (sample_env 1 7) 5 sample_chain = Inr st1"
    by blast
  have before: "balances (underlying sample_chain) 1 = 100"
    by (simp add: sample_chain_def)
  show ?thesis
    using inv dep deposit_redeem_round_trip [OF inv, of 5 st1]
    by (auto simp: before sample_env_def)
qed

lemma pieUSD_redeem_Inr:
  "pieUSD_redeem e x st = Inr st' \<longleftrightarrow>
     x \<noteq> 0 \<and> x \<le> balanceOf st (msg_sender e) \<and>
     (\<exists>w u. erc20_burn (msg_sender e) x (wrapped st) = Inr w \<and>
        erc20_transfer (address_this e) (msg_sender e) x (underlying st) = Inr u \<and>
        st' = st\<lparr>wrapped := w, underlying := u,
                 events := events st @ [Transfer (msg_sender e) 0 x, Redeem (msg_sender e) x],
                 calls := calls st @ [(TransferCall (msg_sender e) x, status st, w)]\<rparr>)"
  by (auto simp: pieUSD_redeem_def usdt_transfer_def record_call_def balanceOf_def
        burn_internal_def emit_def then_do_eq_Inr word_neq_0_conv)

text \<open>
  Claim C7: deposit and redeem are each atomic and reentrancy-safe, with the debit
  ordered before any external release. When redeem goes through, its only external call
  is the transfer of the underlying token to the caller, and at the moment of that call
  the guard is set and the wrapped storage the callee can observe is already the final
  one, in which the caller's balance, checked to cover the amount, is reduced by it.
  When the caller's wrapped balance does not cover the amount, redeem fails whatever the
  underlying token's state, so without reaching the external call. The external calls of
  deposit pull funds in and release nothing, and they too run with the guard set. While
  the guard is set, every deposit or redeem call fails with the reentrancy error, and a
  failed call leaves the state as it was. The redeem of the earlier pieUSD contract has
  no guard but the same order: its only external call sees the wrapped storage already
  debited, and an uncovered amount fails without reaching it; the only external call of
  its deposit pulls funds in.
\<close>

theorem redeem_debits_before_release:
  "(redeem e x st = Inr st' \<longrightarrow>
      calls st' = calls st @ [(TransferCall (msg_sender e) x, ENTERED, wrapped st')] \<and>
      x \<le> balanceOf st (msg_sender e) \<and>
      unat (balanceOf st' (msg_sender e)) + unat x = unat (balanceOf st (msg_sender e)))
   \<and> (balanceOf st (msg_sender e) < x \<longrightarrow>
        isl (redeem e x st) \<and>
        (\<forall>u. redeem e x (st\<lparr>underlying := u\<rparr>) = redeem e x st))
   \<and> (deposit e x st = Inr st'' \<longrightarrow>
        calls st'' = calls st @
          [(BalanceOfCall (address_this e), ENTERED, wrapped st),
           (TransferFromCall (msg_sender e) (address_this e) x, ENTERED, wrapped st),
           (BalanceOfCall (address_this e), ENTERED, wrapped st)])
   \<and> (status st = ENTERED \<longrightarrow>
        deposit e x st = Inl ReentrancyGuardReentrantCall \<and>
        redeem e x st = Inl ReentrancyGuardReentrantCall)
   \<and> (isl (redeem e x st) \<longrightarrow> transact K (e, CallRedeem x) st = st)
   \<and> (isl (deposit e x st) \<longrightarrow> transact K (e, CallDeposit x) st = st)
   \<and> (pieUSD_redeem e x st = Inr st3 \<longrightarrow>
        calls st3 = calls st @ [(TransferCall (msg_sender e) x, status st, wrapped st3)] \<and>
        x \<le> balanceOf st (msg_sender e) \<and>
        unat (balanceOf st3 (msg_sender e)) + unat x = unat (balanceOf st (msg_sender e)))
   \<and> (balanceOf st (msg_sender e) < x \<longrightarrow>
        isl (pieUSD_redeem e x st) \<and>
        (\<forall>u. pieUSD_redeem e x (st\<lparr>underlying := u\<rparr>) = pieUSD_redeem e x st))
   \<and> (pieUSD_deposit e x st = Inr st4 \<longrightarrow>
        calls st4 = calls st @
          [(TransferFromCall (msg_sender e) (address_this e) x, status st, wrapped st)])"
proof -
  have a: "redeem e x st = Inr st' \<longrightarrow>
      calls st' = calls st @ [(TransferCall (msg_sender e) x, ENTERED, wrapped st')] \<and>
      x \<le> balanceOf st (msg_sender e) \<and>
      unat (balanceOf st' (msg_sender e)) + unat x = unat (balanceOf st (msg_sender e))"
    by (auto simp: redeem_Inr erc20_burn_Inr balanceOf_def word_sub_add_unat)
  have b: "balanceOf st (msg_sender e) < x \<longrightarrow>
        isl (redeem e x st) \<and>
        (\<forall>u. redeem e x (st\<lparr>underlying := u\<rparr>) = redeem e x st)"
    by (simp add: redeem_unfold balanceOf_def)
  have c: "deposit e x st = Inr st'' \<longrightarrow>
        calls st'' = calls st @
          [(BalanceOfCall (address_this e), ENTERED, wrapped st),
           (TransferFromCall (msg_sender e) (address_this e) x, ENTERED, wrapped st),
           (BalanceOfCall (address_this e), ENTERED, wrapped st)]"
    by (auto simp: deposit_Inr)
  have d: "status st = ENTERED \<longrightarrow>
        deposit e x st = Inl ReentrancyGuardReentrantCall \<and>
        redeem e x st = Inl ReentrancyGuardReentrantCall"
    by (simp add: deposit_unfold redeem_unfold)
  have f: "isl (redeem e x st) \<longrightarrow> transact K (e, CallRedeem x) st = st"
    by (cases "redeem e x st") (simp_all add: transact_def)
  have g: "isl (deposit e x st) \<longrightarrow> transact K (e, CallDeposit x) st = st"
    by (cases "deposit e x st") (simp_all add: transact_def)
  have h: "pieUSD_redeem e x st = Inr st3 \<longrightarrow>
        calls st3 = calls st @ [(TransferCall (msg_sender e) x, status st, wrapped st3)] \<and>
        x \<le> balanceOf st (msg_sender e) \<and>
        unat (balanceOf st3 (msg_sender e)) + unat x = unat (balanceOf st (msg_sender e))"
    by (auto simp: pieUSD_redeem_Inr erc20_burn_Inr balanceOf_def word_sub_add_unat)
  have i: "balanceOf st (msg_sender e) < x \<longrightarrow>
        isl (pieUSD_redeem e x st) \<and>
        (\<forall>u. pieUSD_redeem e x (st\<lparr>underlying := u\<rparr>) = pieUSD_redeem e x st)"
    by (auto simp: pieUSD_redeem_def balanceOf_def not_le)
  have j: "pieUSD_deposit e x st = Inr st4 \<longrightarrow>
        calls st4 = calls st @
          [(TransferFromCall (msg_sender e) (address_this e) x, status st, wrapped st)]"
    by (auto simp: pieUSD_deposit_def usdt_transferFrom_def record_call_def mint_internal_def
          emit_def then_do_eq_Inr split: if_splits)
  from a b c d f g h i j show ?thesis by blast
qed

theorem redeem_debits_before_release_witness:
  "(\<exists>st'. redeem (sample_env 1 7) 5 sample_chain = Inr st' \<and>
      calls st' = calls sample_chain @ [(TransferCall 1 5, ENTERED, wrapped st')] \<and>
      unat (balanceOf st' 1) + 5 = 40) \<and>
   balanceOf sample_chain (msg_sender (sample_env 1 7)) < 41 \<and>
   isl (redeem (sample_env 1 7) 41 sample_chain) \<and>
   transact sample_crypto (sample_env 1 7, CallRedeem 41) sample_chain = sample_chain \<and>
   (\<exists>st''. deposit (sample_env 1 7) 5 sample_chain = Inr st'' \<and> length (calls st'') = 3) \<and>
   status (sample_chain\<lparr>status := ENTERED\<rparr>) = ENTERED \<and>
   redeem (sample_env 1 7) 5 (sample_chain\<lparr>status := ENTERED\<rparr>) = Inl ReentrancyGuardReentrantCall \<and>
   (\<exists>st3. pieUSD_redeem (sample_env 1 7) 5 sample_chain = Inr st3 \<and>
      calls st3 = [(TransferCall 1 5, NOT_ENTERED, wrapped st3)] \<and>
      unat (balanceOf st3 1) + 5 = 40) \<and>
   isl (pieUSD_redeem (sample_env 1 7) 41 sample_chain) \<and>
   (\<exists>st4. pieUSD_deposit (sample_env 1 7) 5 sample_chain = Inr st4 \<and> length (calls st4) = 1)"
proof -
  have "\<exists>st'. redeem (sample_env 1 7) 5 sample_chain = Inr st'"
    by (simp add: redeem_unfold erc20_burn_def erc20_transfer_def erc20_update_def
          balanceOf_def sample_chain_def sample_env_def)
  then obtain st' where red: "redeem (sample_env 1 7) 5 sample_chain = Inr st'"
    by blast
  have "\<exists>st''. deposit (sample_env 1 7) 5 sample_chain = Inr st''"
    by (simp add: deposit_unfold erc20_transferFrom_def erc20_spendAllowance_def
          erc20_transfer_def erc20_update_def erc20_mint_def sample_chain_def sample_env_def)
  then obtain st'' where dep: "deposit (sample_env 1 7) 5 sample_chain = Inr st''"
    by blast
  have short: "balanceOf sample_chain (msg_sender (sample_env 1 7)) < 41"
    and bal: "balanceOf sample_chain (msg_sender (sample_env 1 7)) = 40"
    and who: "msg_sender (sample_env 1 7) = 1"
    and none: "calls sample_chain = []"
    by (simp_all add: balanceOf_def sample_chain_def sample_env_def)
  have entered: "status (sample_chain\<lparr>status := ENTERED\<rparr>) = ENTERED"
    by simp
  have p1: "calls st' = calls sample_chain @ [(TransferCall 1 5, ENTERED, wrapped st')] \<and>
      unat (balanceOf st' 1) + 5 = 40"
    using red bal who
      redeem_debits_before_release [of "sample_env 1 7" 5 sample_chain st']
    by simp
  have p2: "isl (redeem (sample_env 1 7) 41 sample_chain) \<and>
      transact sample_crypto (sample_env 1 7, CallRedeem 41) sample_chain = sample_chain"
    using short
      redeem_debits_before_release [of "sample_env 1 7" 41 sample_chain _ _ sample_crypto]
    by blast
  have p3: "length (calls st'') = 3"
    using dep none
      redeem_debits_before_release [of "sample_env 1 7" 5 sample_chain _ st'']
    by simp
  have p4: "redeem (sample_env 1 7) 5 (sample_chain\<lparr>status := ENTERED\<rparr>)
      = Inl ReentrancyGuardReentrantCall"
    using entered
      redeem_debits_before_release [of "sample_env 1 7" 5 "sample_chain\<lparr>status := ENTERED\<rparr>"]
    by blast
  have "\<exists>st3. pieUSD_redeem (sample_env 1 7) 5 sample_chain = Inr st3"
    by (simp add: pieUSD_redeem_def usdt_transfer_def burn_internal_def erc20_burn_def
          erc20_transfer_def erc20_update_def balanceOf_def emit_def record_call_def
          sample_chain_def sample_env_def)
  then obtain st3 where red3: "pieUSD_redeem (sample_env 1 7) 5 sample_chain = Inr st3"
    by blast
  have "\<exists>st4. pieUSD_deposit (sample_env 1 7) 5 sample_chain = Inr st4"
    by (simp add: pieUSD_deposit_def usdt_transferFrom_def erc20_transferFrom_def
          erc20_spendAllowance_def erc20_transfer_def erc20_update_def mint_internal_def
          erc20_mint_def emit_def record_call_def sample_chain_def sample_env_def)
  then obtain st4 where dep4: "pieUSD_deposit (sample_env 1 7) 5 sample_chain = Inr st4"
    by blast
  have clear: "status sample_chain = NOT_ENTERED"
    by (simp add: sample_chain_def)
  have p5: "calls st3 = [(TransferCall 1 5, NOT_ENTERED, wrapped st3)] \<and>
      unat (balanceOf st3 1) + 5 = 40"
    using red3 bal who none clear
      redeem_debits_before_release [of "sample_env 1 7" 5 sample_chain _ _ _ st3]
    by simp
  have p6: "isl (pieUSD_redeem (sample_env 1 7) 41 sample_chain)"
    using short redeem_debits_before_release [of "sample_env 1 7" 41 sample_chain]
    by blast
  have p7: "length (calls st4) = 1"
    using dep4 none
      redeem_debits_before_release [of "sample_env 1 7" 5 sample_chain _ _ _ _ st4]
    by simp
  from red dep short entered p1 p2 p3 p4 red3 dep4 p5 p6 p7 show ?thesis by blast
qed

end
